theory Spec2Isabelle
  imports Complex_Main "HOL-Library.Multiset" "HOL-Library.Log_Nat"
begin

section \<open>Data model of \<open>src/app/page.tsx\<close>\<close>

text \<open>
  The quiz is a React component whose session state lives in a reducer
  (\<open>quizReducer\<close>) and whose timing lives in effects. JavaScript numbers that only
  ever hold integers are modelled as \<open>int\<close>; the remaining time is a double, modelled
  by the rational number it stands for, with every operation on it rounded (\<open>fl\<close>
  below); \<open>string | null\<close> and \<open>boolean | null\<close> are options.
\<close>

record Question =
  word :: string
  meaning :: string
  example :: string
  question :: string
  options :: "string list"

record QuizState =
  questions :: "Question list"
  currentQuestionIndex :: int
  userAnswers :: "string list"
  score :: int
  quizCompleted :: bool
  currentAnswer :: "string option"
  isCorrect :: "bool option"
  shuffledOptions :: "string list"
  fixedOptions :: "string list"
  isPaused :: bool
  speedLevel :: int
  showingAnswer :: bool

datatype QuizAction =
    SET_QUESTIONS "Question list"
  | ANSWER_QUESTION string
  | NEXT_QUESTION
  | RESET_QUIZ
  | SET_CURRENT_ANSWER string
  | CHECK_ANSWER
  | SHUFFLE_OPTIONS "string list"
  | SET_FIXED_OPTIONS "string list"
  | TOGGLE_PAUSE
  | SET_SPEED_LEVEL int
  | SET_SHOWING_ANSWER bool

text \<open>
  Reading a property of \<open>undefined\<close> throws a \<open>TypeError\<close>; \<open>new RegExp\<close> on a
  string that is not a pattern throws a \<open>SyntaxError\<close>.
\<close>

datatype error = TypeError | SyntaxError

definition initialState :: QuizState where
  "initialState =
     \<lparr> questions = [], currentQuestionIndex = 0, userAnswers = [], score = 0,
       quizCompleted = False, currentAnswer = None, isCorrect = None,
       shuffledOptions = [], fixedOptions = [], isPaused = False, speedLevel = 1,
       showingAnswer = False \<rparr>"

text \<open>\<open>state.questions[state.currentQuestionIndex]\<close>: \<open>undefined\<close> out of range.\<close>

definition currentQuestion :: "QuizState \<Rightarrow> Question option" where
  "currentQuestion s =
     (let i = currentQuestionIndex s in
      if 0 \<le> i \<and> i < int (length (questions s)) then Some (questions s ! nat i)
      else None)"

fun quizReducer :: "QuizState \<Rightarrow> QuizAction \<Rightarrow> error + QuizState" where
  "quizReducer s (SET_QUESTIONS payload) = Inr (initialState\<lparr>questions := payload\<rparr>)"
| "quizReducer s (ANSWER_QUESTION payload) =
     (case currentQuestion s of
        None \<Rightarrow> Inl TypeError
      | Some q \<Rightarrow>
          Inr (s\<lparr>userAnswers := userAnswers s @ [payload],
                 score := (if payload = word q then score s + 1 else score s)\<rparr>))"
| "quizReducer s (SET_CURRENT_ANSWER payload) =
     Inr (s\<lparr>currentAnswer := Some payload, showingAnswer := True\<rparr>)"
| "quizReducer s CHECK_ANSWER =
     (case currentQuestion s of
        None \<Rightarrow> Inl TypeError
      | Some q \<Rightarrow> Inr (s\<lparr>isCorrect := Some (currentAnswer s = Some (word q))\<rparr>))"
| "quizReducer s NEXT_QUESTION =
     Inr (s\<lparr>currentQuestionIndex := currentQuestionIndex s + 1,
            quizCompleted := (currentQuestionIndex s = int (length (questions s)) - 1),
            currentAnswer := None,
            isCorrect := None,
            fixedOptions := [],
            showingAnswer := False\<rparr>)"
| "quizReducer s RESET_QUIZ = Inr (initialState\<lparr>questions := questions s\<rparr>)"
| "quizReducer s (SHUFFLE_OPTIONS payload) = Inr (s\<lparr>shuffledOptions := payload\<rparr>)"
| "quizReducer s (SET_FIXED_OPTIONS payload) = Inr (s\<lparr>fixedOptions := payload\<rparr>)"
| "quizReducer s TOGGLE_PAUSE = Inr (s\<lparr>isPaused := \<not> isPaused s\<rparr>)"
| "quizReducer s (SET_SPEED_LEVEL payload) = Inr (s\<lparr>speedLevel := payload\<rparr>)"
| "quizReducer s (SET_SHOWING_ANSWER payload) = Inr (s\<lparr>showingAnswer := payload\<rparr>)"

text \<open>Two dispatches in a row: the second reduces the state the first produced.\<close>

definition dispatch2 :: "QuizState \<Rightarrow> QuizAction \<Rightarrow> QuizAction \<Rightarrow> error + QuizState" where
  "dispatch2 s a b = (case quizReducer s a of Inl e \<Rightarrow> Inl e | Inr s1 \<Rightarrow> quizReducer s1 b)"

subsection \<open>Event handlers\<close>

definition handleAnswer :: "QuizState \<Rightarrow> string \<Rightarrow> error + QuizState" where
  "handleAnswer s answer = dispatch2 s (SET_CURRENT_ANSWER answer) CHECK_ANSWER"

definition resetQuiz :: "QuizState \<Rightarrow> error + QuizState" where
  "resetQuiz s = quizReducer s RESET_QUIZ"

definition togglePause :: "QuizState \<Rightarrow> error + QuizState" where
  "togglePause s = quizReducer s TOGGLE_PAUSE"

text \<open>JavaScript's \<open>%\<close> takes the sign of the dividend.\<close>

definition js_rem :: "int \<Rightarrow> int \<Rightarrow> int" where
  "js_rem a b = sgn a * (\<bar>a\<bar> mod \<bar>b\<bar>)"

definition toggleSpeedLevel :: "QuizState \<Rightarrow> error + QuizState" where
  "toggleSpeedLevel s = quizReducer s (SET_SPEED_LEVEL (js_rem (speedLevel s) 3 + 1))"

definition handleNextQuestion :: "QuizState \<Rightarrow> error + QuizState" where
  "handleNextQuestion s = quizReducer s NEXT_QUESTION"

text \<open>The dispatch of \<open>handleFileUpload\<close> once the file has been parsed.\<close>

definition handleFileUpload :: "QuizState \<Rightarrow> Question list \<Rightarrow> error + QuizState" where
  "handleFileUpload s vocabulary = quizReducer s (SET_QUESTIONS vocabulary)"

text \<open>
  The buttons of the view: an option button is \<open>disabled\<close> while
  \<open>state.currentAnswer !== null\<close>, the skip button while \<open>state.quizCompleted\<close>;
  a click on a disabled button runs no handler.
\<close>

definition clickOption :: "QuizState \<Rightarrow> string \<Rightarrow> error + QuizState" where
  "clickOption s option = (if currentAnswer s \<noteq> None then Inr s else handleAnswer s option)"

definition clickNext :: "QuizState \<Rightarrow> error + QuizState" where
  "clickNext s = (if quizCompleted s then Inr s else handleNextQuestion s)"

subsection \<open>The transitions a user or the loader can trigger\<close>

datatype Operation =
    Load "Question list"
  | SelectAnswer string
  | Advance
  | TogglePause
  | SetSpeedLevel
  | Reset

fun perform :: "QuizState \<Rightarrow> Operation \<Rightarrow> error + QuizState" where
  "perform s (Load qs) = handleFileUpload s qs"
| "perform s (SelectAnswer v) = handleAnswer s v"
| "perform s Advance = handleNextQuestion s"
| "perform s TogglePause = togglePause s"
| "perform s SetSpeedLevel = toggleSpeedLevel s"
| "perform s Reset = resetQuiz s"

fun performAll :: "QuizState \<Rightarrow> Operation list \<Rightarrow> error + QuizState" where
  "performAll s [] = Inr s"
| "performAll s (x # xs) =
     (case perform s x of Inl e \<Rightarrow> Inl e | Inr s' \<Rightarrow> performAll s' xs)"

subsection \<open>Option synthesis and shuffling\<close>

text \<open>
  \<open>otherWords.sort(() => 0.5 - Math.random())\<close> sorts with a random comparator; what it
  returns is some rearrangement of \<open>otherWords\<close>. The rearrangement is the parameter
  \<open>randomSort\<close>; theorems assume of it only that it permutes its argument.
\<close>

definition otherWords :: "string \<Rightarrow> Question list \<Rightarrow> string list" where
  "otherWords correctAnswer allQuestions =
     map word (filter (\<lambda>q. word q \<noteq> correctAnswer) allQuestions)"

definition generateRandomOptions ::
  "(string list \<Rightarrow> string list) \<Rightarrow> string \<Rightarrow> Question list \<Rightarrow> string list" where
  "generateRandomOptions randomSort correctAnswer allQuestions =
     (let shuffled = randomSort (otherWords correctAnswer allQuestions)
      in take 3 shuffled)"

text \<open>
  The \<open>newQuestions\<close> of the synthesis effect: every question of the list gets
  new options, each with its own random sort (\<open>randomSort i\<close> for the question at
  index \<open>i\<close>).
\<close>

definition newQuestions ::
  "(nat \<Rightarrow> string list \<Rightarrow> string list) \<Rightarrow> Question list \<Rightarrow> Question list" where
  "newQuestions randomSort qs =
     map (\<lambda>(i, q). q\<lparr>options := word q # generateRandomOptions (randomSort i) (word q) qs\<rparr>)
         (enumerate 0 qs)"

text \<open>
  What an effect dispatches, if anything, is computed from the state of the render it
  runs after; \<open>None\<close> stands for an effect whose condition is false.
\<close>

definition synthesisAction ::
  "(nat \<Rightarrow> string list \<Rightarrow> string list) \<Rightarrow> QuizState \<Rightarrow> QuizAction option" where
  "synthesisAction randomSort s =
     (case currentQuestion s of
        None \<Rightarrow> None
      | Some q \<Rightarrow>
          if length (options q) = 0
          then Some (SET_QUESTIONS (newQuestions randomSort (questions s)))
          else None)"

definition dispatchOption :: "QuizState \<Rightarrow> QuizAction option \<Rightarrow> error + QuizState" where
  "dispatchOption s a = (case a of None \<Rightarrow> Inr s | Some x \<Rightarrow> quizReducer s x)"

definition synthesisEffect ::
  "(nat \<Rightarrow> string list \<Rightarrow> string list) \<Rightarrow> QuizState \<Rightarrow> error + QuizState" where
  "synthesisEffect randomSort s = dispatchOption s (synthesisAction randomSort s)"

text \<open>
  \<open>shuffleArray\<close>: the loop runs \<open>i\<close> from \<open>length - 1\<close> down to \<open>1\<close> and swaps
  positions \<open>i\<close> and \<open>j = floor (random * (i + 1))\<close>. The draw for position \<open>i\<close> is
  \<open>pick i\<close>, brought into \<open>0..i\<close>.
\<close>

fun shuffleLoop :: "(nat \<Rightarrow> nat) \<Rightarrow> nat \<Rightarrow> 'a list \<Rightarrow> 'a list" where
  "shuffleLoop pick 0 shuffled = shuffled"
| "shuffleLoop pick (Suc n) shuffled =
     (let i = Suc n; j = pick i mod (i + 1)
      in shuffleLoop pick n (shuffled[i := shuffled ! j, j := shuffled ! i]))"

definition shuffleArray :: "(nat \<Rightarrow> nat) \<Rightarrow> 'a list \<Rightarrow> 'a list" where
  "shuffleArray pick array = shuffleLoop pick (length array - 1) array"

text \<open>The dispatch of the effect that fixes the order of the options of a new question.\<close>

definition shuffleAction :: "(nat \<Rightarrow> nat) \<Rightarrow> QuizState \<Rightarrow> QuizAction option" where
  "shuffleAction pick s =
     (case currentQuestion s of
        None \<Rightarrow> None
      | Some q \<Rightarrow>
          if length (options q) > 0
          then Some (SET_FIXED_OPTIONS (shuffleArray pick (options q)))
          else None)"

definition shuffleEffect :: "(nat \<Rightarrow> nat) \<Rightarrow> QuizState \<Rightarrow> error + QuizState" where
  "shuffleEffect pick s = dispatchOption s (shuffleAction pick s)"

subsection \<open>Every transition of the session state\<close>

text \<open>
  Besides the user's operations the two effects above dispatch on their own. The timers
  dispatch nothing new: the countdown calls \<open>handleAnswer\<close> and the reveal timer
  dispatches \<open>NEXT_QUESTION\<close>, as \<open>SelectAnswer\<close> and \<open>Advance\<close> do.
\<close>

datatype Transition =
    Public Operation
  | Synthesis "nat \<Rightarrow> string list \<Rightarrow> string list"
  | Shuffle "nat \<Rightarrow> nat"

fun transit :: "QuizState \<Rightarrow> Transition \<Rightarrow> error + QuizState" where
  "transit s (Public x) = perform s x"
| "transit s (Synthesis randomSort) = synthesisEffect randomSort s"
| "transit s (Shuffle pick) = shuffleEffect pick s"

fun transitAll :: "QuizState \<Rightarrow> Transition list \<Rightarrow> error + QuizState" where
  "transitAll s [] = Inr s"
| "transitAll s (t # ts) =
     (case transit s t of Inl e \<Rightarrow> Inl e | Inr s' \<Rightarrow> transitAll s' ts)"

subsection \<open>Doubles\<close>

text \<open>
  A JavaScript number is an IEEE 754 double. A finite double is a rational number, and
  the result of an arithmetic operation is the exact result rounded to the nearest
  double, ties to the even significand. \<open>fl\<close> is that rounding: \<open>binade a\<close> is the
  exponent \<open>e\<close> with \<open>2 ^ e \<le> a < 2 ^ (e + 1)\<close>, the doubles of that binade are the
  multiples of \<open>2 ^ (e - 52)\<close>, and below \<open>2 ^ (- 1022)\<close> they are the multiples of
  \<open>2 ^ (- 1074)\<close>. Infinities and NaN have no rational: a result of magnitude
  \<open>2 ^ 1024\<close> or more and a division by zero are outside this model. Neither arises
  from a remaining time of at most 5000 and a speed level of 1, 2 or 3.
\<close>

definition pow2 :: "int \<Rightarrow> rat" where
  "pow2 k = (if 0 \<le> k then 2 ^ nat k else 1 / 2 ^ nat (- k))"

definition binade :: "rat \<Rightarrow> int" where
  "binade a = (if 1 \<le> a then bitlen \<lfloor>a\<rfloor> - 1 else - bitlen (\<lceil>1 / a\<rceil> - 1))"

definition roundHalfEven :: "rat \<Rightarrow> int" where
  "roundHalfEven m =
     (let f = \<lfloor>m\<rfloor>; d = m - of_int f
      in if d < 1 / 2 then f else if 1 / 2 < d then f + 1 else if even f then f else f + 1)"

definition fl :: "rat \<Rightarrow> rat" where
  "fl x =
     (if x = 0 then 0
      else (let a = \<bar>x\<bar>; ulp = pow2 (max (binade a - 52) (- 1074))
            in sgn x * of_int (roundHalfEven (a / ulp)) * ulp))"

subsection \<open>The answering countdown\<close>

text \<open>
  \<open>100 / ((state.speedLevel * 5) / 5)\<close>, what a tick takes off the remaining time: three
  operations, each rounded.
\<close>

definition tickDecrement :: "int \<Rightarrow> rat" where
  "tickDecrement speed = fl (100 / fl (fl (of_int speed * 5) / 5))"

text \<open>
  The callback of the 100 ms interval, which closes over the \<open>currentQuestion\<close> and the
  \<open>speedLevel\<close> of the render that started the interval: from the previous remaining
  time it gives the next one, and on the last tick it answers with the correct word.
\<close>

definition intervalCallback ::
  "Question \<Rightarrow> int \<Rightarrow> QuizState \<Rightarrow> rat \<Rightarrow> error + (QuizState \<times> rat)" where
  "intervalCallback cq speed s prevTime =
     (if prevTime \<le> 100
      then (case handleAnswer s (word cq) of Inl e \<Rightarrow> Inl e | Inr s' \<Rightarrow> Inr (s', 0))
      else Inr (s, fl (prevTime - tickDecrement speed)))"

text \<open>
  A tick of the interval; the interval exists while there is a current question, no
  pause and no answer.
\<close>

definition countdownTick :: "QuizState \<times> rat \<Rightarrow> error + (QuizState \<times> rat)" where
  "countdownTick = (\<lambda>(s, prevTime).
     case currentQuestion s of
       None \<Rightarrow> Inr (s, prevTime)
     | Some cq \<Rightarrow>
         if \<not> isPaused s \<and> currentAnswer s = None
         then intervalCallback cq (speedLevel s) s prevTime
         else Inr (s, prevTime))"

fun countdownTicks :: "nat \<Rightarrow> QuizState \<times> rat \<Rightarrow> error + (QuizState \<times> rat)" where
  "countdownTicks 0 st = Inr st"
| "countdownTicks (Suc n) st =
     (case countdownTick st of Inl e \<Rightarrow> Inl e | Inr st' \<Rightarrow> countdownTicks n st')"

section \<open>The component: state, timers and effects\<close>

text \<open>
  The component holds the reducer's state, three \<open>useState\<close> cells and, through the
  browser, its pending timers. Time is a clock in milliseconds. An effect runs after a
  render when one of its dependencies differs from the value it had when the effect ran
  last; before it runs again, React calls the cleanup the last run returned. Arrays and
  objects are compared by identity: \<open>questionsRef\<close> numbers the arrays that have been
  \<open>state.questions\<close>, and a question is identified by its array and its index.
\<close>

record Interval =
  intervalId :: nat
  nextFire :: nat
  closedQuestion :: Question
  closedSpeed :: int
  closedTimer :: "nat option"

record Deps =
  depQuestion :: "(nat \<times> int) option"
  depQuestions :: nat
  depPaused :: bool
  depAnswer :: "string option"
  depSpeed :: int
  depCompleted :: bool
  depShowing :: bool

record Component =
  state :: QuizState
  dataset :: "Question list option"
  timer :: "nat option"
  remainingTime :: rat
  answerTimer :: "nat option"
  questionsRef :: nat
  clock :: nat
  nextTimerId :: nat
  intervals :: "Interval list"
  timeouts :: "(nat \<times> nat) list"
  seen :: Deps
  countdownCleanup :: "nat option"
  revealCleanup :: "nat option"
  pauseCleanup :: "nat option"

text \<open>
  What the program gets from outside: the draws of \<open>Math.random\<close> in \<open>shuffleArray\<close>,
  the outcome of the random sort for each question, and whether a string compiles as a
  regular expression.
\<close>

record Environment =
  pick :: "nat \<Rightarrow> nat"
  randomSort :: "nat \<Rightarrow> string list \<Rightarrow> string list"
  regExpCompiles :: "string \<Rightarrow> bool"

definition andThen :: "error + 'a \<Rightarrow> ('a \<Rightarrow> error + 'b) \<Rightarrow> error + 'b" where
  "andThen m f = (case m of Inl e \<Rightarrow> Inl e | Inr x \<Rightarrow> f x)"

definition currentDeps :: "Component \<Rightarrow> Deps" where
  "currentDeps c =
     \<lparr> depQuestion =
         (case currentQuestion (state c) of
            None \<Rightarrow> None
          | Some q \<Rightarrow> Some (questionsRef c, currentQuestionIndex (state c))),
       depQuestions = questionsRef c,
       depPaused = isPaused (state c),
       depAnswer = currentAnswer (state c),
       depSpeed = speedLevel (state c),
       depCompleted = quizCompleted (state c),
       depShowing = showingAnswer (state c) \<rparr>"

text \<open>The component once mounted: every effect has run on \<open>initialState\<close> and done nothing.\<close>

definition mounted :: Component where
  "mounted =
     \<lparr> state = initialState, dataset = None, timer = None, remainingTime = 5000,
       answerTimer = None, questionsRef = 0, clock = 0, nextTimerId = 1,
       intervals = [], timeouts = [],
       seen = \<lparr> depQuestion = None, depQuestions = 0, depPaused = False, depAnswer = None,
                depSpeed = 1, depCompleted = False, depShowing = False \<rparr>,
       countdownCleanup = None, revealCleanup = None, pauseCleanup = None \<rparr>"

subsection \<open>Timers\<close>

text \<open>\<open>if (t) clearInterval(t)\<close> and \<open>if (t) clearTimeout(t)\<close>.\<close>

definition clearInterval :: "nat option \<Rightarrow> Component \<Rightarrow> Component" where
  "clearInterval t c =
     (case t of
        None \<Rightarrow> c
      | Some i \<Rightarrow> c\<lparr>intervals := filter (\<lambda>x. intervalId x \<noteq> i) (intervals c)\<rparr>)"

definition clearTimeout :: "nat option \<Rightarrow> Component \<Rightarrow> Component" where
  "clearTimeout t c =
     (case t of
        None \<Rightarrow> c
      | Some i \<Rightarrow> c\<lparr>timeouts := filter (\<lambda>x. fst x \<noteq> i) (timeouts c)\<rparr>)"

text \<open>\<open>setTimeout(() => dispatch({ type: "NEXT_QUESTION" }), 5000)\<close>; the id is \<open>nextTimerId\<close>.\<close>

definition setNextQuestionTimeout :: "Component \<Rightarrow> Component" where
  "setNextQuestionTimeout c =
     c\<lparr>timeouts := timeouts c @ [(nextTimerId c, clock c + 5000)],
       nextTimerId := nextTimerId c + 1\<rparr>"

subsection \<open>Dispatching from a handler\<close>

definition lift :: "(QuizState \<Rightarrow> error + QuizState) \<Rightarrow> Component \<Rightarrow> error + Component" where
  "lift f c = (case f (state c) of Inl e \<Rightarrow> Inl e | Inr s \<Rightarrow> Inr (c\<lparr>state := s\<rparr>))"

text \<open>An effect's dispatch; the payload of \<open>SET_QUESTIONS\<close> is a new array.\<close>

definition dispatchEffect :: "QuizAction option \<Rightarrow> Component \<Rightarrow> error + Component" where
  "dispatchEffect a c =
     (case a of
        None \<Rightarrow> Inr c
      | Some (SET_QUESTIONS qs) \<Rightarrow>
          lift (\<lambda>s. quizReducer s (SET_QUESTIONS qs)) (c\<lparr>questionsRef := questionsRef c + 1\<rparr>)
      | Some x \<Rightarrow> lift (\<lambda>s. quizReducer s x) c)"

subsection \<open>The five effects\<close>

text \<open>
  Each effect reads the render it belongs to (\<open>r\<close>: its state and its \<open>useState\<close>
  values) and acts on the component as the effects before it have left it (\<open>w\<close>).
  State updates made by an effect are seen by the next render only.
\<close>

definition questionChanged :: "Component \<Rightarrow> bool" where
  "questionChanged r \<longleftrightarrow> depQuestion (seen r) \<noteq> depQuestion (currentDeps r)"

definition countdownDepsChanged :: "Component \<Rightarrow> bool" where
  "countdownDepsChanged r \<longleftrightarrow>
     questionChanged r \<or> depPaused (seen r) \<noteq> depPaused (currentDeps r) \<or>
     depAnswer (seen r) \<noteq> depAnswer (currentDeps r) \<or>
     depSpeed (seen r) \<noteq> depSpeed (currentDeps r)"

definition synthesisDepsChanged :: "Component \<Rightarrow> bool" where
  "synthesisDepsChanged r \<longleftrightarrow>
     questionChanged r \<or> depQuestions (seen r) \<noteq> depQuestions (currentDeps r)"

definition revealDepsChanged :: "Component \<Rightarrow> bool" where
  "revealDepsChanged r \<longleftrightarrow>
     depAnswer (seen r) \<noteq> depAnswer (currentDeps r) \<or>
     depCompleted (seen r) \<noteq> depCompleted (currentDeps r) \<or>
     depShowing (seen r) \<noteq> depShowing (currentDeps r) \<or>
     depPaused (seen r) \<noteq> depPaused (currentDeps r)"

definition pauseDepsChanged :: "Component \<Rightarrow> bool" where
  "pauseDepsChanged r \<longleftrightarrow> depPaused (seen r) \<noteq> depPaused (currentDeps r)"

definition runCleanups :: "Component \<Rightarrow> Component" where
  "runCleanups r =
     (let w1 = (if countdownDepsChanged r then clearInterval (countdownCleanup r) r else r);
          w2 = (if revealDepsChanged r then clearTimeout (revealCleanup r) w1 else w1)
      in if pauseDepsChanged r then clearTimeout (pauseCleanup r) w2 else w2)"

definition shuffleOptionsEffect :: "Environment \<Rightarrow> Component \<Rightarrow> Component \<Rightarrow> error + Component" where
  "shuffleOptionsEffect env r w =
     (if questionChanged r
      then (case shuffleAction (pick env) (state r) of
              None \<Rightarrow> Inr w
            | Some a \<Rightarrow> andThen (dispatchEffect (Some a) w) (\<lambda>w'. Inr (w'\<lparr>remainingTime := 5000\<rparr>)))
      else Inr w)"

definition countdownEffect :: "Component \<Rightarrow> Component \<Rightarrow> Component" where
  "countdownEffect r w =
     (if countdownDepsChanged r
      then (case currentQuestion (state r) of
              Some q \<Rightarrow>
                if \<not> isPaused (state r) \<and> currentAnswer (state r) = None
                then w\<lparr>intervals := intervals w @
                          [\<lparr> intervalId = nextTimerId w, nextFire = clock w + 100,
                             closedQuestion = q, closedSpeed = speedLevel (state r),
                             closedTimer = timer r \<rparr>],
                       nextTimerId := nextTimerId w + 1,
                       timer := Some (nextTimerId w),
                       countdownCleanup := Some (nextTimerId w)\<rparr>
                else (if isPaused (state r) then clearInterval (timer r) w else w)
                       \<lparr>countdownCleanup := None\<rparr>
            | None \<Rightarrow>
                (if isPaused (state r) then clearInterval (timer r) w else w)
                  \<lparr>countdownCleanup := None\<rparr>)
      else w)"

definition optionSynthesisEffect :: "Environment \<Rightarrow> Component \<Rightarrow> Component \<Rightarrow> error + Component" where
  "optionSynthesisEffect env r w =
     (if synthesisDepsChanged r
      then dispatchEffect (synthesisAction (randomSort env) (state r)) w
      else Inr w)"

definition revealEffect :: "Component \<Rightarrow> Component \<Rightarrow> Component" where
  "revealEffect r w =
     (if revealDepsChanged r
      then (if currentAnswer (state r) \<noteq> None \<and> \<not> quizCompleted (state r) \<and>
               showingAnswer (state r)
            then (let w1 = clearTimeout (answerTimer r) w
                  in if \<not> isPaused (state r)
                     then (setNextQuestionTimeout w1)
                            \<lparr>answerTimer := Some (nextTimerId w1),
                             revealCleanup := Some (nextTimerId w1)\<rparr>
                     else w1\<lparr>revealCleanup := None\<rparr>)
            else w\<lparr>revealCleanup := None\<rparr>)
      else w)"

definition pauseEffect :: "Component \<Rightarrow> Component \<Rightarrow> Component" where
  "pauseEffect r w =
     (if pauseDepsChanged r
      then (if currentAnswer (state r) \<noteq> None \<and> showingAnswer (state r)
            then (if isPaused (state r)
                  then (clearTimeout (answerTimer r) w)\<lparr>pauseCleanup := None\<rparr>
                  else (setNextQuestionTimeout w)
                         \<lparr>answerTimer := Some (nextTimerId w),
                          pauseCleanup := Some (nextTimerId w)\<rparr>)
            else w\<lparr>pauseCleanup := None\<rparr>)
      else w)"

text \<open>One pass: the cleanups of the effects that will run, then their bodies in order.\<close>

definition runEffects :: "Environment \<Rightarrow> Component \<Rightarrow> error + Component" where
  "runEffects env r =
     andThen (shuffleOptionsEffect env r (runCleanups r)) (\<lambda>w1.
     andThen (optionSynthesisEffect env r (countdownEffect r w1)) (\<lambda>w3.
     Inr ((pauseEffect r (revealEffect r w3))\<lparr>seen := currentDeps r\<rparr>)))"

text \<open>
  \<open>highlightAnswer\<close> compiles \<open>new RegExp(`(${answer})`, "gi")\<close> and splits the text at
  its matches; what it shows is the text.
\<close>

definition highlightAnswer :: "Environment \<Rightarrow> string \<Rightarrow> string \<Rightarrow> error + string" where
  "highlightAnswer env sentence answer =
     (if regExpCompiles env (''('' @ answer @ '')'') then Inr sentence else Inl SyntaxError)"

text \<open>
  The condition of the result block of the quiz view,
  \<open>state.isCorrect !== null || state.currentAnswer !== null\<close>.
\<close>

definition resultShown :: "QuizState \<Rightarrow> bool" where
  "resultShown s = (isCorrect s \<noteq> None \<or> currentAnswer s \<noteq> None)"

text \<open>
  The quiz view reads \<open>currentQuestion.question\<close> unless the quiz is completed, and
  in the result block it highlights the word in the example; before a dataset is there
  the upload screen is shown instead.
\<close>

definition renderView :: "Environment \<Rightarrow> Component \<Rightarrow> error + string" where
  "renderView env c =
     (if dataset c = None then Inr ''Upload JSON Dataset''
      else if \<not> quizCompleted (state c)
      then (case currentQuestion (state c) of
              None \<Rightarrow> Inl TypeError
            | Some q \<Rightarrow>
                if resultShown (state c)
                then andThen (highlightAnswer env (example q) (word q)) (\<lambda>_. Inr (question q))
                else Inr (question q))
      else Inr ''Quiz Completed!'')"

text \<open>
  Render, run the effects whose dependencies changed, and render again when they
  updated the state. No sequence of effects of this component takes more than two
  passes to settle (lemma \<open>commit_settles\<close> below).
\<close>

fun settle :: "nat \<Rightarrow> Environment \<Rightarrow> Component \<Rightarrow> error + Component" where
  "settle 0 env c = Inr c"
| "settle (Suc n) env c =
     andThen (renderView env c) (\<lambda>_.
       if currentDeps c = seen c then Inr c
       else andThen (runEffects env c) (settle n env))"

definition commit :: "Environment \<Rightarrow> Component \<Rightarrow> error + Component" where
  "commit env c = settle 3 env c"

subsection \<open>Events\<close>

datatype Event =
    Upload "Question list"
  | ClickOption string
  | ClickNext
  | ClickPause
  | ClickSpeed
  | ClickRestart
  | Fire nat
  | Elapse nat

text \<open>
  A button that is not rendered or is disabled runs no handler. A timer fires no
  earlier than it is due: firing moves the clock to the timer's time if the clock is
  not there yet.
\<close>

definition fireInterval :: "Interval \<Rightarrow> Component \<Rightarrow> error + Component" where
  "fireInterval iv c =
     (let c1 = c\<lparr>clock := max (clock c) (nextFire iv),
                  intervals := map (\<lambda>x. if intervalId x = intervalId iv
                                         then x\<lparr>nextFire := nextFire x + 100\<rparr> else x)
                                   (intervals c)\<rparr>;
          c2 = (if remainingTime c1 \<le> 100
                then clearInterval (closedTimer iv) (clearInterval (Some (intervalId iv)) c1)
                else c1)
      in andThen (intervalCallback (closedQuestion iv) (closedSpeed iv) (state c2)
                    (remainingTime c2))
           (\<lambda>(s', t'). Inr (c2\<lparr>state := s', remainingTime := t'\<rparr>)))"

definition fireTimeout :: "nat \<times> nat \<Rightarrow> Component \<Rightarrow> error + Component" where
  "fireTimeout t c =
     lift (\<lambda>s. quizReducer s NEXT_QUESTION)
       (c\<lparr>clock := max (clock c) (snd t),
          timeouts := filter (\<lambda>x. fst x \<noteq> fst t) (timeouts c)\<rparr>)"

fun handle :: "Component \<Rightarrow> Event \<Rightarrow> error + Component" where
  "handle c (Upload vocabulary) =
     (if dataset c \<noteq> None then Inr c
      else lift (\<lambda>s. handleFileUpload s vocabulary)
             (c\<lparr>dataset := Some vocabulary, questionsRef := questionsRef c + 1\<rparr>))"
| "handle c (ClickOption v) =
     (if dataset c = None \<or> quizCompleted (state c) \<or> v \<notin> set (fixedOptions (state c)) \<or>
         currentAnswer (state c) \<noteq> None
      then Inr c
      else lift (\<lambda>s. handleAnswer s v) (clearInterval (timer c) c))"
| "handle c ClickNext =
     (if dataset c = None \<or> quizCompleted (state c) then Inr c
      else lift handleNextQuestion (clearTimeout (answerTimer c) c))"
| "handle c ClickPause = (if dataset c = None then Inr c else lift togglePause c)"
| "handle c ClickSpeed = (if dataset c = None then Inr c else lift toggleSpeedLevel c)"
| "handle c ClickRestart =
     (if dataset c = None \<or> \<not> quizCompleted (state c) then Inr c else lift resetQuiz c)"
| "handle c (Fire i) =
     (case find (\<lambda>x. intervalId x = i) (intervals c) of
        Some iv \<Rightarrow> fireInterval iv c
      | None \<Rightarrow>
          (case find (\<lambda>x. fst x = i) (timeouts c) of
             Some t \<Rightarrow> fireTimeout t c
           | None \<Rightarrow> Inr c))"
| "handle c (Elapse d) = Inr (c\<lparr>clock := clock c + d\<rparr>)"

definition step :: "Component \<Rightarrow> Environment \<times> Event \<Rightarrow> error + Component" where
  "step c = (\<lambda>(env, ev). andThen (handle c ev) (commit env))"

fun run :: "Component \<Rightarrow> (Environment \<times> Event) list \<Rightarrow> error + Component" where
  "run c [] = Inr c"
| "run c (e # es) = andThen (step c e) (\<lambda>c'. run c' es)"

section \<open>Invariants of the component\<close>

text \<open>
  The predicates below are not part of the program; they state what holds of every
  component a run can reach, and the proofs further down establish them.

  \<open>settled\<close>: no effect is waiting to run. \<open>timersOwned\<close>: every pending timeout is the
  one that the last run of the reveal effect or of the pause effect would clear in its
  cleanup. \<open>quietWhilePaused\<close>: no timeout is pending while the quiz is paused.
  \<open>notBefore t\<close>: the clock has reached \<open>t\<close> and no pending timeout is due before
  \<open>t + 5000\<close>. \<open>intervalsCurrent\<close>: every running interval is the one the countdown
  effect would clear, and it closes over the speed level the effect last saw.
\<close>

definition settled :: "Component \<Rightarrow> bool" where
  "settled c \<longleftrightarrow> currentDeps c = seen c"

definition timersOwned :: "Component \<Rightarrow> bool" where
  "timersOwned c \<longleftrightarrow>
     (\<forall>x \<in> set (timeouts c). Some (fst x) = revealCleanup c \<or> Some (fst x) = pauseCleanup c)"

definition quietWhilePaused :: "Component \<Rightarrow> bool" where
  "quietWhilePaused c \<longleftrightarrow> (isPaused (state c) \<longrightarrow> timeouts c = [])"

definition notBefore :: "nat \<Rightarrow> Component \<Rightarrow> bool" where
  "notBefore t c \<longleftrightarrow> t \<le> clock c \<and> (\<forall>x \<in> set (timeouts c). t + 5000 \<le> snd x)"

text \<open>
  What holds in the middle of a step, when the handler has run and the effects have not
  yet: a paused component with a pending timeout has the change of the pause flag still
  to process.
\<close>

definition pausePending :: "Component \<Rightarrow> bool" where
  "pausePending c \<longleftrightarrow> (isPaused (state c) \<longrightarrow> timeouts c = [] \<or> pauseDepsChanged c)"

definition wellTimed :: "Component \<Rightarrow> bool" where
  "wellTimed c \<longleftrightarrow> settled c \<and> timersOwned c \<and> quietWhilePaused c"

definition intervalsCurrent :: "Component \<Rightarrow> bool" where
  "intervalsCurrent c \<longleftrightarrow>
     (\<forall>iv \<in> set (intervals c).
        Some (intervalId iv) = countdownCleanup c \<and> closedSpeed iv = depSpeed (seen c))"

section \<open>Sample data\<close>

definition q_cat :: Question where
  "q_cat = \<lparr> word = ''cat'', meaning = ''a small pet'', example = ''The cat sleeps.'',
             question = ''Which animal purrs?'', options = [''cat'', ''dog''] \<rparr>"

definition q_dog :: Question where
  "q_dog = \<lparr> word = ''dog'', meaning = ''a loyal pet'', example = ''The dog barks.'',
             question = ''Which animal barks?'', options = [''dog'', ''cat''] \<rparr>"

definition bare :: "string \<Rightarrow> Question" where
  "bare w = \<lparr> word = w, meaning = [], example = [], question = [], options = [] \<rparr>"

definition loadedTwo :: QuizState where
  "loadedTwo = initialState\<lparr>questions := [q_cat, q_dog]\<rparr>"

definition secondOfTwo :: QuizState where
  "secondOfTwo = initialState\<lparr>questions := [q_cat, bare ''dog''], currentQuestionIndex := 1\<rparr>"

definition answeredCat :: QuizState where
  "answeredCat = loadedTwo\<lparr>currentAnswer := Some ''cat'', showingAnswer := True,
                           isCorrect := Some True\<rparr>"

subsection \<open>Sample components\<close>

text \<open>An environment that shuffles nothing and compiles every pattern.\<close>

definition env0 :: Environment where
  "env0 = \<lparr> pick = (\<lambda>i. i), randomSort = (\<lambda>i xs. xs), regExpCompiles = (\<lambda>p. True) \<rparr>"

text \<open>The component when the upload of the empty list has been handled.\<close>

definition uploadedEmpty :: Component where
  "uploadedEmpty =
     mounted\<lparr>state := initialState\<lparr>questions := []\<rparr>, dataset := Some [], questionsRef := 1\<rparr>"

text \<open>The component after the upload of a list that starts with \<open>q_cat\<close>.\<close>

definition uploaded :: "Question list \<Rightarrow> Component" where
  "uploaded qs =
     mounted\<lparr>state := initialState\<lparr>questions := qs, fixedOptions := [''cat'', ''dog'']\<rparr>,
             dataset := Some qs, timer := Some 1, questionsRef := 1, nextTimerId := 2,
             intervals := [\<lparr> intervalId = 1, nextFire = 100, closedQuestion = q_cat,
                             closedSpeed = 1, closedTimer = None \<rparr>],
             seen := \<lparr> depQuestion = Some (1, 0), depQuestions = 1, depPaused = False,
                       depAnswer = None, depSpeed = 1, depCompleted = False,
                       depShowing = False \<rparr>,
             countdownCleanup := Some 1\<rparr>"

text \<open>After the click on \<open>cat\<close>, with the clock at \<open>t\<close>.\<close>

definition revealing :: "Question list \<Rightarrow> nat \<Rightarrow> Component" where
  "revealing qs t =
     (uploaded qs)
       \<lparr>state := (state (uploaded qs))
                   \<lparr>currentAnswer := Some ''cat'', isCorrect := Some True, showingAnswer := True\<rparr>,
        answerTimer := Some 2, clock := t, nextTimerId := 3, intervals := [],
        timeouts := [(2, 5000)],
        seen := (seen (uploaded qs))\<lparr>depAnswer := Some ''cat'', depShowing := True\<rparr>,
        countdownCleanup := None, revealCleanup := Some 2\<rparr>"

definition pausedReveal :: "Question list \<Rightarrow> nat \<Rightarrow> Component" where
  "pausedReveal qs t =
     (revealing qs t)
       \<lparr>state := (state (revealing qs t))\<lparr>isPaused := True\<rparr>,
        timeouts := [],
        seen := (seen (revealing qs t))\<lparr>depPaused := True\<rparr>,
        revealCleanup := None\<rparr>"

text \<open>After the resume at 3000: two timeouts, both due at 8000.\<close>

definition resumedReveal :: "Question list \<Rightarrow> nat \<Rightarrow> Component" where
  "resumedReveal qs t =
     (revealing qs t)
       \<lparr>answerTimer := Some 4, nextTimerId := 5, timeouts := [(3, 8000), (4, 8000)],
        revealCleanup := Some 3, pauseCleanup := Some 4\<rparr>"

text \<open>The one-question quiz after the first of the two timeouts, and after the second.\<close>

definition completedOne :: Component where
  "completedOne =
     (resumedReveal [q_cat] 8000)
       \<lparr>state := initialState\<lparr>questions := [q_cat], currentQuestionIndex := 1,
                               quizCompleted := True\<rparr>,
        timeouts := [(4, 8000)],
        seen := \<lparr> depQuestion = None, depQuestions = 1, depPaused = False, depAnswer = None,
                  depSpeed = 1, depCompleted = True, depShowing = False \<rparr>,
        revealCleanup := None\<rparr>"

definition overrunOne :: Component where
  "overrunOne =
     completedOne\<lparr>state := initialState\<lparr>questions := [q_cat], currentQuestionIndex := 2\<rparr>,
                  timeouts := []\<rparr>"

text \<open>The two-question quiz at speed level 2.\<close>

definition spedUp :: Component where
  "spedUp =
     (uploaded [q_cat, q_dog])
       \<lparr>state := (state (uploaded [q_cat, q_dog]))\<lparr>speedLevel := 2\<rparr>,
        timer := Some 2, nextTimerId := 3,
        intervals := [\<lparr> intervalId = 2, nextFire = 100, closedQuestion = q_cat,
                        closedSpeed = 2, closedTimer = Some 1 \<rparr>],
        seen := (seen (uploaded [q_cat, q_dog]))\<lparr>depSpeed := 2\<rparr>,
        countdownCleanup := Some 2\<rparr>"

definition tickedOnce :: Component where
  "tickedOnce =
     spedUp\<lparr>remainingTime := 4950, clock := 100,
            intervals := [\<lparr> intervalId = 2, nextFire = 200, closedQuestion = q_cat,
                            closedSpeed = 2, closedTimer = Some 1 \<rparr>]\<rparr>"

definition answeredSlow :: Component where
  "answeredSlow =
     tickedOnce
       \<lparr>state := (state tickedOnce)
                   \<lparr>currentAnswer := Some ''cat'', isCorrect := Some True, showingAnswer := True\<rparr>,
        answerTimer := Some 3, nextTimerId := 4, intervals := [], timeouts := [(3, 5100)],
        seen := (seen tickedOnce)\<lparr>depAnswer := Some ''cat'', depShowing := True\<rparr>,
        countdownCleanup := None, revealCleanup := Some 3\<rparr>"

definition secondQuestion :: Component where
  "secondQuestion =
     answeredSlow
       \<lparr>state := initialState\<lparr>questions := [q_cat, q_dog], currentQuestionIndex := 1,
                               fixedOptions := [''dog'', ''cat''], speedLevel := 2\<rparr>,
        timer := Some 4, remainingTime := 5000, nextTimerId := 5,
        intervals := [\<lparr> intervalId = 4, nextFire = 200, closedQuestion = q_dog,
                        closedSpeed = 2, closedTimer = Some 2 \<rparr>],
        timeouts := [],
        seen := \<lparr> depQuestion = Some (1, 1), depQuestions = 1, depPaused = False,
                  depAnswer = None, depSpeed = 2, depCompleted = False, depShowing = False \<rparr>,
        countdownCleanup := Some 4, revealCleanup := None\<rparr>"

text \<open>The speed-2 quiz when \<open>ClickNext\<close> has been handled and no effect has run yet.\<close>

definition beforeEffects :: Component where
  "beforeEffects =
     answeredSlow
       \<lparr>state := initialState\<lparr>questions := [q_cat, q_dog], currentQuestionIndex := 1,
                               speedLevel := 2\<rparr>,
        timeouts := []\<rparr>"

section \<open>Properties of the reducer and the handlers\<close>

subsection \<open>Auxiliary facts\<close>

lemma currentQuestion_frame [simp]:
  "currentQuestion (s\<lparr>currentAnswer := a\<rparr>) = currentQuestion s"
  "currentQuestion (s\<lparr>showingAnswer := b\<rparr>) = currentQuestion s"
  "currentQuestion (s\<lparr>isCorrect := c\<rparr>) = currentQuestion s"
  "currentQuestion (s\<lparr>isPaused := p\<rparr>) = currentQuestion s"
  "currentQuestion (s\<lparr>speedLevel := n\<rparr>) = currentQuestion s"
  "currentQuestion (s\<lparr>fixedOptions := f\<rparr>) = currentQuestion s"
  by (simp_all add: currentQuestion_def Let_def)

text \<open>What the two dispatches of \<open>handleAnswer\<close> add up to.\<close>

lemma handleAnswer_eq:
  "handleAnswer s v =
     (case currentQuestion s of
        None \<Rightarrow> Inl TypeError
      | Some q \<Rightarrow> Inr (s\<lparr>currentAnswer := Some v, showingAnswer := True,
                          isCorrect := Some (v = word q)\<rparr>))"
  by (simp add: handleAnswer_def dispatch2_def split: option.splits)

lemma word_samples [simp]:
  "word q_cat = ''cat''" "word q_dog = ''dog''" "word (bare w) = w"
  by (simp_all add: q_cat_def q_dog_def bare_def)

lemma options_samples [simp]:
  "options q_cat = [''cat'', ''dog'']" "options q_dog = [''dog'', ''cat'']" "options (bare w) = []"
  by (simp_all add: q_cat_def q_dog_def bare_def)

lemma currentQuestion_loadedTwo: "currentQuestion loadedTwo = Some q_cat"
  by (simp add: currentQuestion_def loadedTwo_def initialState_def)

lemma handleAnswer_loadedTwo: "handleAnswer loadedTwo ''cat'' = Inr answeredCat"
  by (simp add: handleAnswer_eq currentQuestion_loadedTwo answeredCat_def)

subsection \<open>Selecting an answer\<close>

text \<open>
  C1. Selecting an answer should record it, evaluate it, append it to the answers
  and add one to the score when it is correct. \<open>handleAnswer\<close> dispatches
  \<open>SET_CURRENT_ANSWER\<close> and \<open>CHECK_ANSWER\<close> only; the action that appends and scores,
  \<open>ANSWER_QUESTION\<close>, is never dispatched. After loading two questions and choosing
  the correct word of the first, the answer is recorded and evaluated as correct, yet
  the score is still 0 and the list of answers is still empty.
\<close>

theorem handleAnswer_score_unchanged_example:
  "handleFileUpload initialState [q_cat, q_dog] = Inr loadedTwo \<and>
   handleAnswer loadedTwo ''cat'' = Inr answeredCat \<and>
   currentAnswer answeredCat = Some ''cat'' \<and>
   isCorrect answeredCat = Some True \<and>
   showingAnswer answeredCat \<and>
   score answeredCat = 0 \<and>
   userAnswers answeredCat = []"
  by (simp add: handleFileUpload_def handleAnswer_loadedTwo)
     (simp add: answeredCat_def loadedTwo_def initialState_def)

text \<open>The action that would have done it, had it been dispatched.\<close>

lemma ANSWER_QUESTION_scores:
  "quizReducer loadedTwo (ANSWER_QUESTION ''cat'') =
     Inr (loadedTwo\<lparr>userAnswers := [''cat''], score := 1\<rparr>)"
  by (simp add: currentQuestion_loadedTwo) (simp add: loadedTwo_def initialState_def)

text \<open>
  C8 as stated fails: a second call of \<open>handleAnswer\<close> with another value replaces
  the recorded answer and its evaluation.
\<close>

theorem handleAnswer_twice_overwrites:
  "handleAnswer loadedTwo ''cat'' = Inr answeredCat \<and>
   currentAnswer answeredCat = Some ''cat'' \<and>
   isCorrect answeredCat = Some True \<and>
   handleAnswer answeredCat ''dog'' =
     Inr (answeredCat\<lparr>currentAnswer := Some ''dog'', isCorrect := Some False\<rparr>) \<and>
   answeredCat\<lparr>currentAnswer := Some ''dog'', isCorrect := Some False\<rparr> \<noteq> answeredCat"
proof -
  have "currentAnswer (answeredCat\<lparr>currentAnswer := Some ''dog'', isCorrect := Some False\<rparr>)
          \<noteq> currentAnswer answeredCat"
    by (simp add: answeredCat_def)
  then have "answeredCat\<lparr>currentAnswer := Some ''dog'', isCorrect := Some False\<rparr> \<noteq> answeredCat"
    by metis
  then show ?thesis
    by (simp add: handleAnswer_eq currentQuestion_loadedTwo answeredCat_def)
qed

text \<open>
  C8, amended. The guard against a second selection is in the view: while an answer
  is selected the option buttons are disabled, so a click changes nothing.
  \<open>handleAnswer\<close> itself has no guard: called again it never touches the answers and
  the score, and it sets the selected answer to the new value and \<open>isCorrect\<close> to the
  evaluation of that value.
\<close>

theorem second_selection:
  assumes "currentAnswer s \<noteq> None"
  shows "clickOption s v = Inr s \<and>
         (handleAnswer s v = Inr s' \<longrightarrow>
            userAnswers s' = userAnswers s \<and> score s' = score s \<and>
            currentAnswer s' = Some v \<and>
            isCorrect s' = Some (Some v = map_option word (currentQuestion s)))"
  using assms by (auto simp: clickOption_def handleAnswer_eq split: option.splits)

theorem second_selection_witness:
  "currentAnswer answeredCat \<noteq> None \<and>
   clickOption answeredCat ''dog'' = Inr answeredCat \<and>
   handleAnswer answeredCat ''dog'' =
     Inr (answeredCat\<lparr>currentAnswer := Some ''dog'', isCorrect := Some False\<rparr>) \<and>
   userAnswers (answeredCat\<lparr>currentAnswer := Some ''dog'', isCorrect := Some False\<rparr>) =
     userAnswers answeredCat \<and>
   score (answeredCat\<lparr>currentAnswer := Some ''dog'', isCorrect := Some False\<rparr>) =
     score answeredCat"
proof -
  have h: "currentAnswer answeredCat \<noteq> None" by (simp add: answeredCat_def)
  have r: "handleAnswer answeredCat ''dog'' =
     Inr (answeredCat\<lparr>currentAnswer := Some ''dog'', isCorrect := Some False\<rparr>)"
    by (simp add: handleAnswer_eq currentQuestion_loadedTwo answeredCat_def)
  show ?thesis
    using h r second_selection [OF h, of "''dog''"
        "answeredCat\<lparr>currentAnswer := Some ''dog'', isCorrect := Some False\<rparr>"]
    by simp
qed

subsection \<open>The countdown's timeout\<close>

text \<open>
  C2. On the tick that finds no more than 100 units left, with a current question,
  no pause and no answer yet, the countdown sets the remaining time to 0 and calls
  \<open>handleAnswer\<close> with the word of the current question: that word becomes the
  selected answer, it is evaluated as correct, and the score is what it was. No tick of
  the countdown, timeout or not, lowers the score.
\<close>

theorem timeout_selects_correct_word:
  assumes "currentQuestion s = Some q" and "\<not> isPaused s" and "currentAnswer s = None"
    and "prevTime \<le> 100"
  shows "handleAnswer s (word q) =
           Inr (s\<lparr>currentAnswer := Some (word q), showingAnswer := True,
                  isCorrect := Some True\<rparr>) \<and>
         countdownTick (s, prevTime) =
           Inr (s\<lparr>currentAnswer := Some (word q), showingAnswer := True,
                  isCorrect := Some True\<rparr>, 0) \<and>
         (\<forall>t s' t'. countdownTick (s, t) = Inr (s', t') \<longrightarrow> score s \<le> score s')"
  using assms
  by (auto simp: countdownTick_def intervalCallback_def handleAnswer_eq split: if_splits)

theorem timeout_selects_correct_word_witness:
  "currentQuestion loadedTwo = Some q_cat \<and> \<not> isPaused loadedTwo \<and>
   currentAnswer loadedTwo = None \<and> (100 :: rat) \<le> 100 \<and>
   countdownTick (loadedTwo, 100) = Inr (answeredCat, 0) \<and>
   isCorrect answeredCat = Some True \<and> score answeredCat = score loadedTwo"
proof -
  have h: "currentQuestion loadedTwo = Some q_cat" "\<not> isPaused loadedTwo"
    "currentAnswer loadedTwo = None" "(100 :: rat) \<le> 100"
    by (simp_all add: currentQuestion_loadedTwo) (simp_all add: loadedTwo_def initialState_def)
  from timeout_selects_correct_word [OF h] h show ?thesis
    by (simp add: answeredCat_def)
qed

subsection \<open>Advancing\<close>

lemma advance_on_last_completes:
  assumes "currentQuestionIndex s = int (length (questions s)) - 1"
  shows "handleNextQuestion s =
           Inr (s\<lparr>currentQuestionIndex := int (length (questions s)),
                  quizCompleted := True, currentAnswer := None, isCorrect := None,
                  fixedOptions := [], showingAnswer := False\<rparr>)"
  using assms by (simp add: handleNextQuestion_def)

text \<open>
  The reducer has no case for a session that is already completed: \<open>NEXT_QUESTION\<close>
  on the completed one-question session moves the index to 2, past the end of the list,
  and sets \<open>quizCompleted\<close> back to false.
\<close>

lemma NEXT_QUESTION_after_completion:
  "performAll initialState [Load [q_cat], SelectAnswer ''cat'', Advance] =
     Inr (initialState\<lparr>questions := [q_cat], currentQuestionIndex := 1, quizCompleted := True\<rparr>) \<and>
   performAll initialState [Load [q_cat], SelectAnswer ''cat'', Advance, Advance] =
     Inr (initialState\<lparr>questions := [q_cat], currentQuestionIndex := 2, quizCompleted := False\<rparr>)"
  by (simp add: handleFileUpload_def handleAnswer_eq handleNextQuestion_def currentQuestion_def initialState_def)

subsection \<open>The invariant of the selected answer\<close>

lemma transit_answer_invariant:
  assumes "(currentAnswer s \<noteq> None) = (isCorrect s \<noteq> None)" and "transit s t = Inr s'"
  shows "(currentAnswer s' \<noteq> None) = (isCorrect s' \<noteq> None)"
proof (cases t)
  case (Public x)
  with assms show ?thesis
    by (cases x)
       (auto simp: handleFileUpload_def handleAnswer_eq handleNextQuestion_def togglePause_def
          toggleSpeedLevel_def resetQuiz_def initialState_def split: option.splits)
next
  case (Synthesis r)
  with assms show ?thesis
    by (auto simp: synthesisEffect_def synthesisAction_def dispatchOption_def initialState_def
        split: option.splits if_splits)
next
  case (Shuffle p)
  with assms show ?thesis
    by (auto simp: shuffleEffect_def shuffleAction_def dispatchOption_def
        split: option.splits if_splits)
qed

lemma transitAll_answer_invariant:
  "transitAll s ts = Inr s' \<Longrightarrow> (currentAnswer s \<noteq> None) = (isCorrect s \<noteq> None) \<Longrightarrow>
   (currentAnswer s' \<noteq> None) = (isCorrect s' \<noteq> None)"
proof (induction ts arbitrary: s)
  case Nil
  then show ?case by simp
next
  case (Cons t ts)
  from Cons.prems(1) obtain s1 where 1: "transit s t = Inr s1" and 2: "transitAll s1 ts = Inr s'"
    by (auto split: sum.splits)
  from transit_answer_invariant [OF Cons.prems(2) 1] Cons.IH [OF 2] show ?case by blast
qed

text \<open>
  C9. In every session reached from the initial one by the public transitions (load,
  select, advance, toggle pause, change speed, reset), interleaved in any way with the
  dispatches of the two effects, an answer is selected exactly when \<open>isCorrect\<close> is set.
\<close>

theorem answer_set_iff_evaluated:
  assumes "transitAll initialState ts = Inr s"
  shows "(currentAnswer s \<noteq> None) = (isCorrect s \<noteq> None)"
  using transitAll_answer_invariant [OF assms] by (simp add: initialState_def)

theorem answer_set_iff_evaluated_witness:
  "transitAll initialState
     [Public (Load [q_cat, q_dog]), Shuffle (\<lambda>i. 0), Public (SelectAnswer ''dog''),
      Public TogglePause, Public SetSpeedLevel] =
     Inr (loadedTwo\<lparr>currentAnswer := Some ''dog'', showingAnswer := True,
           isCorrect := Some False, fixedOptions := [''dog'', ''cat''], isPaused := True,
           speedLevel := 2\<rparr>) \<and>
   (currentAnswer (loadedTwo\<lparr>currentAnswer := Some ''dog'', showingAnswer := True,
           isCorrect := Some False, fixedOptions := [''dog'', ''cat''], isPaused := True,
           speedLevel := 2\<rparr>) \<noteq> None) =
   (isCorrect (loadedTwo\<lparr>currentAnswer := Some ''dog'', showingAnswer := True,
           isCorrect := Some False, fixedOptions := [''dog'', ''cat''], isPaused := True,
           speedLevel := 2\<rparr>) \<noteq> None)"
proof -
  have r: "transitAll initialState
     [Public (Load [q_cat, q_dog]), Shuffle (\<lambda>i. 0), Public (SelectAnswer ''dog''),
      Public TogglePause, Public SetSpeedLevel] =
     Inr (loadedTwo\<lparr>currentAnswer := Some ''dog'', showingAnswer := True,
           isCorrect := Some False, fixedOptions := [''dog'', ''cat''], isPaused := True,
           speedLevel := 2\<rparr>)"
    by (simp add: handleFileUpload_def shuffleEffect_def shuffleAction_def dispatchOption_def
        handleAnswer_eq togglePause_def toggleSpeedLevel_def js_rem_def currentQuestion_def
        shuffleArray_def loadedTwo_def initialState_def)
  from answer_set_iff_evaluated [OF r] r show ?thesis by simp
qed


subsection \<open>Option synthesis\<close>

lemma newQuestions_nth:
  "i < length qs \<Longrightarrow>
   newQuestions rs qs ! i =
     (qs ! i)\<lparr>options := word (qs ! i) # generateRandomOptions (rs i) (word (qs ! i)) qs\<rparr>"
  by (simp add: newQuestions_def nth_enumerate_eq)

lemma length_newQuestions [simp]: "length (newQuestions rs qs) = length qs"
  by (simp add: newQuestions_def)

lemma mset_take_subset: "mset (take n xs) \<subseteq># mset xs"
proof -
  have "mset xs = mset (take n xs) + mset (drop n xs)"
    by (metis append_take_drop_id mset_append)
  then show ?thesis by simp
qed

lemma generateRandomOptions_props:
  assumes "mset (r (otherWords w qs)) = mset (otherWords w qs)"
  shows "length (generateRandomOptions r w qs) = min 3 (length (otherWords w qs))"
    and "mset (generateRandomOptions r w qs) \<subseteq># mset (otherWords w qs)"
    and "w \<notin> set (generateRandomOptions r w qs)"
proof -
  let ?o = "otherWords w qs"
  have g: "generateRandomOptions r w qs = take 3 (r ?o)"
    by (simp add: generateRandomOptions_def)
  have "length (r ?o) = length ?o" using assms by (metis size_mset)
  then show "length (generateRandomOptions r w qs) = min 3 (length ?o)"
    by (simp add: g min.commute)
  show sub: "mset (generateRandomOptions r w qs) \<subseteq># mset ?o"
    using mset_take_subset[of 3 "r ?o"] assms by (simp add: g)
  have "w \<notin> set ?o" by (auto simp: otherWords_def)
  with sub show "w \<notin> set (generateRandomOptions r w qs)"
    by (metis mset_subset_eqD set_mset_mset)
qed

lemma length_filter_neq_distinct:
  "distinct xs \<Longrightarrow> a \<in> set xs \<Longrightarrow> length (filter (\<lambda>x. x \<noteq> a) xs) = length xs - 1"
proof (induction xs)
  case Nil
  then show ?case by simp
next
  case (Cons x xs)
  show ?case
  proof (cases "x = a")
    case True
    with Cons.prems have "a \<notin> set xs" by simp
    then have "filter (\<lambda>x. x \<noteq> a) xs = xs" by (simp add: filter_id_conv) blast
    with True show ?thesis by simp
  next
    case False
    with Cons have "length (filter (\<lambda>x. x \<noteq> a) xs) = length xs - 1" and "xs \<noteq> []" by auto
    with False show ?thesis by (cases xs) auto
  qed
qed

lemma otherWords_distinct:
  assumes "distinct (map word qs)" and "i < length qs"
  shows "length (otherWords (word (qs ! i)) qs) = length qs - 1"
proof -
  have "length (otherWords (word (qs ! i)) qs) =
        length (filter (\<lambda>w. w \<noteq> word (qs ! i)) (map word qs))"
    by (simp add: otherWords_def filter_map comp_def)
  also have "\<dots> = length (map word qs) - 1"
    using assms by (intro length_filter_neq_distinct) auto
  finally show ?thesis by simp
qed

text \<open>
  C7 as stated fails when two questions share a word: the distractors are drawn
  from the questions whose word differs from the correct answer, so of the other two
  questions of \<open>cat, cat, dog\<close> only one gives a distractor for the first.
\<close>

theorem synthesis_shared_word:
  "options (newQuestions (\<lambda>i xs. xs) [bare ''cat'', bare ''cat'', bare ''dog''] ! 0) =
     [''cat'', ''dog''] \<and>
   length [''cat'', ''dog''] - 1 \<noteq>
     min 3 (length [bare ''cat'', bare ''cat'', bare ''dog''] - 1)"
  by (simp add: newQuestions_nth generateRandomOptions_def otherWords_def)

text \<open>
  C7, amended. Whatever rearrangement the random sort produces, the synthesized
  options of the question at index \<open>i\<close> are its word followed by \<open>min 3 k\<close> distractors,
  where \<open>k\<close> is the number of loaded questions whose word differs from that word (all
  the other questions when the words of the list are distinct). The distractors are drawn
  without replacement from the words of those questions, the correct word occurs exactly
  once, and every option is the word of a loaded question.
\<close>

theorem synthesized_options:
  assumes "\<forall>j xs. mset (rs j xs) = mset xs" and "i < length qs"
  shows "options (newQuestions rs qs ! i) =
           word (qs ! i) # generateRandomOptions (rs i) (word (qs ! i)) qs \<and>
         length (generateRandomOptions (rs i) (word (qs ! i)) qs) =
           min 3 (length (otherWords (word (qs ! i)) qs)) \<and>
         mset (generateRandomOptions (rs i) (word (qs ! i)) qs) \<subseteq>#
           mset (otherWords (word (qs ! i)) qs) \<and>
         count_list (options (newQuestions rs qs ! i)) (word (qs ! i)) = 1 \<and>
         set (options (newQuestions rs qs ! i)) \<subseteq> word ` set qs \<and>
         (distinct (map word qs) \<longrightarrow>
            length (otherWords (word (qs ! i)) qs) = length qs - 1)"
proof -
  let ?w = "word (qs ! i)"
  let ?ds = "generateRandomOptions (rs i) ?w qs"
  have perm: "mset (rs i (otherWords ?w qs)) = mset (otherWords ?w qs)"
    using assms(1) by simp
  note p = generateRandomOptions_props [of "rs i" ?w qs, OF perm]
  have opts: "options (newQuestions rs qs ! i) = ?w # ?ds"
    using assms(2) by (simp add: newQuestions_nth)
  have "set ?ds \<subseteq> set (otherWords ?w qs)"
    using p(2) by (metis set_mset_mono set_mset_mset)
  also have "\<dots> \<subseteq> word ` set qs" by (auto simp: otherWords_def)
  finally have sub: "set ?ds \<subseteq> word ` set qs" .
  have "?w \<in> word ` set qs" using assms(2) by simp
  with sub have 1: "set (?w # ?ds) \<subseteq> word ` set qs" by simp
  have 2: "count_list (?w # ?ds) ?w = 1" using p(3) by (simp add: count_list_0_iff)
  show ?thesis
    using opts p(1) p(2) 1 2 otherWords_distinct [OF _ assms(2)] by simp
qed

theorem synthesized_options_witness:
  "(\<forall>j xs. mset ((\<lambda>j. rev) j xs) = mset (xs :: string list)) \<and>
   (1 :: nat) < length [bare ''cat'', bare ''dog'', bare ''cow'', bare ''pig'', bare ''hen''] \<and>
   options (newQuestions (\<lambda>j. rev)
              [bare ''cat'', bare ''dog'', bare ''cow'', bare ''pig'', bare ''hen''] ! 1) =
     [''dog'', ''hen'', ''pig'', ''cow''] \<and>
   count_list (options (newQuestions (\<lambda>j. rev)
              [bare ''cat'', bare ''dog'', bare ''cow'', bare ''pig'', bare ''hen''] ! 1))
     (word ([bare ''cat'', bare ''dog'', bare ''cow'', bare ''pig'', bare ''hen''] ! 1)) = 1"
proof -
  let ?qs = "[bare ''cat'', bare ''dog'', bare ''cow'', bare ''pig'', bare ''hen'']"
  have h1: "\<forall>j xs. mset ((\<lambda>j. rev) j xs) = mset (xs :: string list)" by simp
  have h2: "(1 :: nat) < length ?qs" by simp
  have "options (newQuestions (\<lambda>j. rev) ?qs ! 1) = [''dog'', ''hen'', ''pig'', ''cow'']"
    by (simp add: newQuestions_nth generateRandomOptions_def otherWords_def)
  with synthesized_options [OF h1 h2] h1 h2 show ?thesis by blast
qed

text \<open>
  C10. When the current question has no options, the synthesis effect dispatches
  \<open>SET_QUESTIONS\<close> with options rebuilt for every question of the list; the state it
  leaves is \<open>initialState\<close> with the new list, so the index, the score, the answers, the
  selected answer, its evaluation and the completion flag are back at their initial
  values whatever progress there was.
\<close>

theorem synthesis_resets_session:
  assumes "currentQuestion s = Some q" and "options q = []"
  shows "synthesisEffect rs s = Inr (initialState\<lparr>questions := newQuestions rs (questions s)\<rparr>) \<and>
         currentQuestionIndex (initialState\<lparr>questions := newQuestions rs (questions s)\<rparr>) = 0 \<and>
         score (initialState\<lparr>questions := newQuestions rs (questions s)\<rparr>) = 0 \<and>
         userAnswers (initialState\<lparr>questions := newQuestions rs (questions s)\<rparr>) = [] \<and>
         currentAnswer (initialState\<lparr>questions := newQuestions rs (questions s)\<rparr>) = None \<and>
         isCorrect (initialState\<lparr>questions := newQuestions rs (questions s)\<rparr>) = None \<and>
         quizCompleted (initialState\<lparr>questions := newQuestions rs (questions s)\<rparr>) = False"
  using assms
  by (simp add: synthesisEffect_def synthesisAction_def dispatchOption_def initialState_def)


theorem synthesis_resets_session_witness:
  "transitAll initialState
     [Public (Load [q_cat, bare ''dog'']), Public (SelectAnswer ''cat''), Public Advance] =
     Inr secondOfTwo \<and>
   currentQuestion secondOfTwo = Some (bare ''dog'') \<and> options (bare ''dog'') = [] \<and>
   currentQuestionIndex secondOfTwo = 1 \<and>
   synthesisEffect (\<lambda>j xs. xs) secondOfTwo =
     Inr (initialState\<lparr>questions := newQuestions (\<lambda>j xs. xs) [q_cat, bare ''dog'']\<rparr>) \<and>
   currentQuestionIndex
     (initialState\<lparr>questions := newQuestions (\<lambda>j xs. xs) [q_cat, bare ''dog'']\<rparr>) = 0"
proof -
  have r: "transitAll initialState
     [Public (Load [q_cat, bare ''dog'']), Public (SelectAnswer ''cat''), Public Advance] =
     Inr secondOfTwo"
    by (simp add: handleFileUpload_def handleAnswer_eq handleNextQuestion_def
        currentQuestion_def secondOfTwo_def initialState_def)
  have h: "currentQuestion secondOfTwo = Some (bare ''dog'')" "options (bare ''dog'') = []"
    by (simp_all add: currentQuestion_def secondOfTwo_def initialState_def)
  have q: "questions secondOfTwo = [q_cat, bare ''dog'']" "currentQuestionIndex secondOfTwo = 1"
    by (simp_all add: secondOfTwo_def)
  from synthesis_resets_session [OF h, of "\<lambda>j xs. xs"] r h q show ?thesis by simp
qed

section \<open>Properties of the component\<close>

subsection \<open>What the timer primitives and the effects leave alone\<close>

lemma clearInterval_frame [simp]:
  "state (clearInterval t c) = state c"
  "questionsRef (clearInterval t c) = questionsRef c"
  "timeouts (clearInterval t c) = timeouts c"
  "clock (clearInterval t c) = clock c"
  "revealCleanup (clearInterval t c) = revealCleanup c"
  "pauseCleanup (clearInterval t c) = pauseCleanup c"
  "seen (clearInterval t c) = seen c"
  "dataset (clearInterval t c) = dataset c"
  "nextTimerId (clearInterval t c) = nextTimerId c"
  "remainingTime (clearInterval t c) = remainingTime c"
  "countdownCleanup (clearInterval t c) = countdownCleanup c"
  by (simp_all add: clearInterval_def split: option.splits)

lemma clearTimeout_frame [simp]:
  "state (clearTimeout t c) = state c"
  "questionsRef (clearTimeout t c) = questionsRef c"
  "clock (clearTimeout t c) = clock c"
  "revealCleanup (clearTimeout t c) = revealCleanup c"
  "pauseCleanup (clearTimeout t c) = pauseCleanup c"
  "seen (clearTimeout t c) = seen c"
  "dataset (clearTimeout t c) = dataset c"
  "nextTimerId (clearTimeout t c) = nextTimerId c"
  "remainingTime (clearTimeout t c) = remainingTime c"
  "intervals (clearTimeout t c) = intervals c"
  "countdownCleanup (clearTimeout t c) = countdownCleanup c"
  by (simp_all add: clearTimeout_def split: option.splits)

lemma timeouts_clearTimeout:
  "timeouts (clearTimeout t c) =
     (case t of None \<Rightarrow> timeouts c | Some i \<Rightarrow> filter (\<lambda>x. fst x \<noteq> i) (timeouts c))"
  by (simp add: clearTimeout_def split: option.splits)

lemma set_timeouts_clearTimeout: "set (timeouts (clearTimeout t c)) \<subseteq> set (timeouts c)"
  by (auto simp: timeouts_clearTimeout split: option.splits)

lemma setNextQuestionTimeout_frame [simp]:
  "state (setNextQuestionTimeout c) = state c"
  "questionsRef (setNextQuestionTimeout c) = questionsRef c"
  "clock (setNextQuestionTimeout c) = clock c"
  "revealCleanup (setNextQuestionTimeout c) = revealCleanup c"
  "pauseCleanup (setNextQuestionTimeout c) = pauseCleanup c"
  "seen (setNextQuestionTimeout c) = seen c"
  "dataset (setNextQuestionTimeout c) = dataset c"
  "remainingTime (setNextQuestionTimeout c) = remainingTime c"
  "timeouts (setNextQuestionTimeout c) = timeouts c @ [(nextTimerId c, clock c + 5000)]"
  "nextTimerId (setNextQuestionTimeout c) = nextTimerId c + 1"
  "intervals (setNextQuestionTimeout c) = intervals c"
  "countdownCleanup (setNextQuestionTimeout c) = countdownCleanup c"
  by (simp_all add: setNextQuestionTimeout_def)

lemma runCleanups_frame [simp]:
  "state (runCleanups r) = state r"
  "questionsRef (runCleanups r) = questionsRef r"
  "clock (runCleanups r) = clock r"
  "revealCleanup (runCleanups r) = revealCleanup r"
  "pauseCleanup (runCleanups r) = pauseCleanup r"
  "seen (runCleanups r) = seen r"
  "dataset (runCleanups r) = dataset r"
  "remainingTime (runCleanups r) = remainingTime r"
  "countdownCleanup (runCleanups r) = countdownCleanup r"
  by (simp_all add: runCleanups_def Let_def)

lemma timeouts_runCleanups:
  "timeouts (runCleanups r) =
     filter (\<lambda>x. (revealDepsChanged r \<longrightarrow> Some (fst x) \<noteq> revealCleanup r) \<and>
                  (pauseDepsChanged r \<longrightarrow> Some (fst x) \<noteq> pauseCleanup r))
            (timeouts r)"
  by (auto simp: runCleanups_def Let_def timeouts_clearTimeout split: option.splits
      intro: filter_cong)

lemma countdownEffect_frame [simp]:
  "state (countdownEffect r w) = state w"
  "questionsRef (countdownEffect r w) = questionsRef w"
  "timeouts (countdownEffect r w) = timeouts w"
  "clock (countdownEffect r w) = clock w"
  "revealCleanup (countdownEffect r w) = revealCleanup w"
  "pauseCleanup (countdownEffect r w) = pauseCleanup w"
  "seen (countdownEffect r w) = seen w"
  "dataset (countdownEffect r w) = dataset w"
  "remainingTime (countdownEffect r w) = remainingTime w"
  by (simp_all add: countdownEffect_def split: option.splits)

lemma revealEffect_frame [simp]:
  "state (revealEffect r w) = state w"
  "questionsRef (revealEffect r w) = questionsRef w"
  "clock (revealEffect r w) = clock w"
  "pauseCleanup (revealEffect r w) = pauseCleanup w"
  "seen (revealEffect r w) = seen w"
  "dataset (revealEffect r w) = dataset w"
  "remainingTime (revealEffect r w) = remainingTime w"
  "intervals (revealEffect r w) = intervals w"
  "countdownCleanup (revealEffect r w) = countdownCleanup w"
  by (simp_all add: revealEffect_def Let_def)

lemma pauseEffect_frame [simp]:
  "state (pauseEffect r w) = state w"
  "questionsRef (pauseEffect r w) = questionsRef w"
  "clock (pauseEffect r w) = clock w"
  "revealCleanup (pauseEffect r w) = revealCleanup w"
  "seen (pauseEffect r w) = seen w"
  "dataset (pauseEffect r w) = dataset w"
  "remainingTime (pauseEffect r w) = remainingTime w"
  "intervals (pauseEffect r w) = intervals w"
  "countdownCleanup (pauseEffect r w) = countdownCleanup w"
  by (simp_all add: pauseEffect_def)

lemma lift_Inr:
  "lift f c = Inr c' \<longleftrightarrow> (\<exists>s. f (state c) = Inr s \<and> c' = c\<lparr>state := s\<rparr>)"
  by (auto simp: lift_def split: sum.splits)

lemma dispatchEffect_Inr:
  "dispatchEffect a w = Inr w' \<Longrightarrow>
     timeouts w' = timeouts w \<and> clock w' = clock w \<and> revealCleanup w' = revealCleanup w \<and>
     pauseCleanup w' = pauseCleanup w \<and> seen w' = seen w \<and> dataset w' = dataset w \<and>
     nextTimerId w' = nextTimerId w \<and> intervals w' = intervals w \<and>
     remainingTime w' = remainingTime w \<and> countdownCleanup w' = countdownCleanup w"
  by (auto simp: dispatchEffect_def lift_Inr split: option.splits QuizAction.splits)

lemma shuffleOptionsEffect_Inr:
  "shuffleOptionsEffect env r w = Inr w' \<Longrightarrow>
     timeouts w' = timeouts w \<and> clock w' = clock w \<and> revealCleanup w' = revealCleanup w \<and>
     pauseCleanup w' = pauseCleanup w \<and> seen w' = seen w \<and> dataset w' = dataset w \<and>
     questionsRef w' = questionsRef w \<and> intervals w' = intervals w \<and>
     countdownCleanup w' = countdownCleanup w \<and>
     (\<not> questionChanged r \<longrightarrow> remainingTime w' = remainingTime w \<and> state w' = state w) \<and>
     (state w' = state w \<or> (\<exists>f. state w' = (state w)\<lparr>fixedOptions := f\<rparr>))"
  by (auto simp: shuffleOptionsEffect_def shuffleAction_def andThen_def dispatchEffect_def lift_Inr
      split: option.splits if_splits sum.splits)

lemma optionSynthesisEffect_Inr:
  "optionSynthesisEffect env r w = Inr w' \<Longrightarrow>
     timeouts w' = timeouts w \<and> clock w' = clock w \<and> revealCleanup w' = revealCleanup w \<and>
     pauseCleanup w' = pauseCleanup w \<and> seen w' = seen w \<and> dataset w' = dataset w \<and>
     intervals w' = intervals w \<and> countdownCleanup w' = countdownCleanup w \<and>
     remainingTime w' = remainingTime w \<and>
     (if synthesisDepsChanged r \<and> synthesisAction (randomSort env) (state r) \<noteq> None
      then state w' = initialState\<lparr>questions := newQuestions (randomSort env) (questions (state r))\<rparr> \<and>
           questionsRef w' = questionsRef w + 1
      else w' = w)"
  by (auto simp: optionSynthesisEffect_def synthesisAction_def dispatchEffect_def lift_Inr
      split: option.splits if_splits)

lemma currentDeps_fixedOptions:
  "state w' = (state w)\<lparr>fixedOptions := f\<rparr> \<Longrightarrow> questionsRef w' = questionsRef w \<Longrightarrow>
   currentDeps w' = currentDeps w"
  by (simp add: currentDeps_def split: option.splits)

lemma currentDeps_state:
  "state w' = state w \<Longrightarrow> questionsRef w' = questionsRef w \<Longrightarrow> currentDeps w' = currentDeps w"
  by (simp add: currentDeps_def split: option.splits)

text \<open>One pass of the effects: what it does to the state and the dependencies.\<close>

lemma runEffects_state:
  assumes "runEffects env r = Inr c"
  shows "seen c = currentDeps r"
    and "clock c = clock r"
    and "dataset c = dataset r"
    and "\<not> (synthesisDepsChanged r \<and> synthesisAction (randomSort env) (state r) \<noteq> None)
           \<Longrightarrow> currentDeps c = currentDeps r"
    and "synthesisDepsChanged r \<and> synthesisAction (randomSort env) (state r) \<noteq> None
           \<Longrightarrow> state c = initialState\<lparr>questions :=
                             newQuestions (randomSort env) (questions (state r))\<rparr>"
    and "isPaused (state c) \<Longrightarrow> isPaused (state r)"
proof -
  from assms obtain w1 w3 where
    1: "shuffleOptionsEffect env r (runCleanups r) = Inr w1" and
    3: "optionSynthesisEffect env r (countdownEffect r w1) = Inr w3" and
    c: "c = (pauseEffect r (revealEffect r w3))\<lparr>seen := currentDeps r\<rparr>"
    by (auto simp: runEffects_def andThen_def split: sum.splits)
  note s1 = shuffleOptionsEffect_Inr [OF 1]
  note s3 = optionSynthesisEffect_Inr [OF 3]
  show "seen c = currentDeps r" by (simp add: c)
  show "clock c = clock r" using s1 s3 by (simp add: c)
  show "dataset c = dataset r" using s1 s3 by (simp add: c)
  have d1: "currentDeps w1 = currentDeps r"
    using s1 currentDeps_fixedOptions [where w' = w1 and w = "runCleanups r"]
      currentDeps_state [where w' = w1 and w = "runCleanups r"]
      currentDeps_state [where w' = "runCleanups r" and w = r] by auto
  show "currentDeps c = currentDeps r"
    if "\<not> (synthesisDepsChanged r \<and> synthesisAction (randomSort env) (state r) \<noteq> None)"
  proof -
    from that s3 have "w3 = countdownEffect r w1" by (simp split: if_splits)
    then have "currentDeps c = currentDeps w1"
      by (intro currentDeps_state) (simp_all add: c)
    with d1 show ?thesis by simp
  qed
  show "state c = initialState\<lparr>questions := newQuestions (randomSort env) (questions (state r))\<rparr>"
    if "synthesisDepsChanged r \<and> synthesisAction (randomSort env) (state r) \<noteq> None"
    using that s3 by (simp add: c)
  show "isPaused (state r)" if "isPaused (state c)"
  proof (cases "synthesisDepsChanged r \<and> synthesisAction (randomSort env) (state r) \<noteq> None")
    case True
    with s3 that show ?thesis by (simp add: c initialState_def)
  next
    case False
    with s3 have "w3 = countdownEffect r w1" by (simp split: if_splits)
    with that s1 show ?thesis by (auto simp: c)
  qed
qed

subsection \<open>The effects settle\<close>

lemma synthesisAction_newQuestions:
  "synthesisAction rs' (initialState\<lparr>questions := newQuestions rs qs\<rparr>) = None"
  by (auto simp: synthesisAction_def currentQuestion_def initialState_def newQuestions_def
      nth_enumerate_eq split: option.splits)

lemma settle_settled_id:
  "settled c \<Longrightarrow> settle n env c = Inr c' \<Longrightarrow> c' = c"
  by (cases n) (auto simp: settled_def andThen_def split: sum.splits)

lemma commit_settles:
  assumes "commit env c = Inr c'"
  shows "settled c'"
proof (cases "settled c")
  case True
  with assms settle_settled_id show ?thesis by (metis commit_def)
next
  case False
  with assms obtain c1 where 1: "runEffects env c = Inr c1" and s1: "settle 2 env c1 = Inr c'"
    by (auto simp: commit_def numeral_3_eq_3 numeral_2_eq_2 settled_def andThen_def
        split: sum.splits if_splits)
  note e1 = runEffects_state [OF 1]
  show ?thesis
  proof (cases "settled c1")
    case True
    with s1 settle_settled_id show ?thesis by metis
  next
    case u1: False
    have syn: "synthesisDepsChanged c \<and> synthesisAction (randomSort env) (state c) \<noteq> None"
    proof (rule ccontr)
      assume "\<not> (synthesisDepsChanged c \<and> synthesisAction (randomSort env) (state c) \<noteq> None)"
      from e1(4) [OF this] e1(1) u1 show False by (simp add: settled_def)
    qed
    from u1 s1 obtain c2 where 2: "runEffects env c1 = Inr c2" and s2: "settle 1 env c2 = Inr c'"
      by (auto simp: numeral_2_eq_2 settled_def andThen_def split: sum.splits if_splits)
    note e2 = runEffects_state [OF 2]
    from e1(5) [OF syn] have "synthesisAction (randomSort env) (state c1) = None"
      by (simp add: synthesisAction_newQuestions)
    then have "\<not> (synthesisDepsChanged c1 \<and>
                 synthesisAction (randomSort env) (state c1) \<noteq> None)" by simp
    from e2(4) [OF this] e2(1) have "settled c2" by (simp add: settled_def)
    with s2 settle_settled_id show ?thesis by metis
  qed
qed

subsection \<open>Who owns a pending timeout\<close>

lemma effects_owned:
  assumes "\<forall>x \<in> set (timeouts w).
             (Some (fst x) = revealCleanup w \<and> \<not> revealDepsChanged r) \<or>
             (Some (fst x) = pauseCleanup w \<and> \<not> pauseDepsChanged r)"
  shows "timersOwned (pauseEffect r (revealEffect r w))"
  using assms
  by (auto simp: revealEffect_def pauseEffect_def timersOwned_def Let_def timeouts_clearTimeout
      split: option.splits)

lemma effects_paused:
  "isPaused (state r) \<Longrightarrow> set (timeouts (pauseEffect r (revealEffect r w))) \<subseteq> set (timeouts w)"
  by (auto simp: revealEffect_def pauseEffect_def Let_def timeouts_clearTimeout
      split: option.splits)

lemma effects_deadlines:
  "set (timeouts (pauseEffect r (revealEffect r w))) \<subseteq>
     set (timeouts w) \<union> {x. snd x = clock w + 5000}"
  by (auto simp: revealEffect_def pauseEffect_def Let_def timeouts_clearTimeout
      split: option.splits)

lemma runEffects_timeouts:
  assumes "runEffects env r = Inr c"
  obtains w where "timeouts w = timeouts (runCleanups r)" and "clock w = clock r"
    and "revealCleanup w = revealCleanup r" and "pauseCleanup w = pauseCleanup r"
    and "timeouts c = timeouts (pauseEffect r (revealEffect r w))"
    and "revealCleanup c = revealCleanup (pauseEffect r (revealEffect r w))"
    and "pauseCleanup c = pauseCleanup (pauseEffect r (revealEffect r w))"
proof -
  from assms obtain w1 w3 where
    1: "shuffleOptionsEffect env r (runCleanups r) = Inr w1" and
    3: "optionSynthesisEffect env r (countdownEffect r w1) = Inr w3" and
    c: "c = (pauseEffect r (revealEffect r w3))\<lparr>seen := currentDeps r\<rparr>"
    by (auto simp: runEffects_def andThen_def split: sum.splits)
  note s1 = shuffleOptionsEffect_Inr [OF 1]
  note s3 = optionSynthesisEffect_Inr [OF 3]
  show thesis
    by (rule that [of w3]) (use s1 s3 in \<open>simp_all add: c\<close>)
qed

lemma runEffects_owned:
  assumes "runEffects env r = Inr c" and "timersOwned r"
  shows "timersOwned c"
proof -
  from assms(1) obtain w where w: "timeouts w = timeouts (runCleanups r)"
    "revealCleanup w = revealCleanup r" "pauseCleanup w = pauseCleanup r"
    "timeouts c = timeouts (pauseEffect r (revealEffect r w))"
    "revealCleanup c = revealCleanup (pauseEffect r (revealEffect r w))"
    "pauseCleanup c = pauseCleanup (pauseEffect r (revealEffect r w))"
    by (rule runEffects_timeouts)
  have "\<forall>x \<in> set (timeouts w).
          (Some (fst x) = revealCleanup w \<and> \<not> revealDepsChanged r) \<or>
          (Some (fst x) = pauseCleanup w \<and> \<not> pauseDepsChanged r)"
    using assms(2) by (auto simp: w timeouts_runCleanups timersOwned_def)
  from effects_owned [OF this] show ?thesis
    by (simp add: timersOwned_def w)
qed

lemma runEffects_quiet:
  assumes "runEffects env r = Inr c" and "timersOwned r" and "pausePending r"
  shows "quietWhilePaused c"
proof (cases "isPaused (state c)")
  case False
  then show ?thesis by (simp add: quietWhilePaused_def)
next
  case True
  with runEffects_state(6) [OF assms(1)] have p: "isPaused (state r)" by simp
  from assms(1) obtain w where w: "timeouts w = timeouts (runCleanups r)"
    "timeouts c = timeouts (pauseEffect r (revealEffect r w))"
    by (rule runEffects_timeouts)
  have "pauseDepsChanged r \<Longrightarrow> revealDepsChanged r"
    by (simp add: pauseDepsChanged_def revealDepsChanged_def)
  with assms(2,3) p have "timeouts (runCleanups r) = []"
    by (auto simp: pausePending_def timeouts_runCleanups timersOwned_def filter_empty_conv)
  with effects_paused [OF p, of w] show ?thesis
    by (simp add: quietWhilePaused_def w)
qed

lemma runEffects_notBefore:
  assumes "runEffects env r = Inr c" and "notBefore t r"
  shows "notBefore t c"
proof -
  from assms(1) obtain w where w: "timeouts w = timeouts (runCleanups r)" "clock w = clock r"
    "timeouts c = timeouts (pauseEffect r (revealEffect r w))"
    by (rule runEffects_timeouts)
  have "set (timeouts w) \<subseteq> set (timeouts r)" by (auto simp: w timeouts_runCleanups)
  with effects_deadlines [of r w] assms(2) runEffects_state(2) [OF assms(1)] show ?thesis
    by (fastforce simp: notBefore_def w)
qed

lemma quiet_pausePending: "quietWhilePaused c \<Longrightarrow> pausePending c"
  by (simp add: quietWhilePaused_def pausePending_def)

lemma settle_owned:
  "settle n env c = Inr c' \<Longrightarrow> timersOwned c \<Longrightarrow> pausePending c \<Longrightarrow>
   timersOwned c' \<and> pausePending c'"
proof (induction n arbitrary: c)
  case 0
  then show ?case by simp
next
  case (Suc n)
  show ?case
  proof (cases "currentDeps c = seen c")
    case True
    with Suc.prems show ?thesis by (auto simp: andThen_def split: sum.splits)
  next
    case False
    with Suc.prems(1) obtain c1 where 1: "runEffects env c = Inr c1"
      and 2: "settle n env c1 = Inr c'"
      by (auto simp: andThen_def split: sum.splits)
    from Suc.IH [OF 2 runEffects_owned [OF 1 Suc.prems(2)]
        quiet_pausePending [OF runEffects_quiet [OF 1 Suc.prems(2,3)]]]
    show ?thesis .
  qed
qed

lemma settle_notBefore:
  "settle n env c = Inr c' \<Longrightarrow> notBefore t c \<Longrightarrow> notBefore t c'"
proof (induction n arbitrary: c)
  case 0
  then show ?case by simp
next
  case (Suc n)
  show ?case
  proof (cases "currentDeps c = seen c")
    case True
    with Suc.prems show ?thesis by (auto simp: andThen_def split: sum.splits)
  next
    case False
    with Suc.prems(1) obtain c1 where 1: "runEffects env c = Inr c1"
      and 2: "settle n env c1 = Inr c'"
      by (auto simp: andThen_def split: sum.splits)
    from Suc.IH [OF 2 runEffects_notBefore [OF 1 Suc.prems(2)]] show ?thesis .
  qed
qed

subsection \<open>Handlers never add a timeout\<close>

lemma fireInterval_Inr:
  "fireInterval iv c = Inr c' \<Longrightarrow>
     timeouts c' = timeouts c \<and> clock c \<le> clock c' \<and> revealCleanup c' = revealCleanup c \<and>
     pauseCleanup c' = pauseCleanup c \<and> seen c' = seen c \<and>
     (isPaused (state c') \<longrightarrow> isPaused (state c))"
  by (auto simp: fireInterval_def Let_def andThen_def intervalCallback_def handleAnswer_eq
      split: sum.splits if_splits option.splits)

lemma handle_Inr:
  assumes "handle c ev = Inr c'"
  shows "set (timeouts c') \<subseteq> set (timeouts c)" and "clock c \<le> clock c'"
    and "revealCleanup c' = revealCleanup c" and "pauseCleanup c' = pauseCleanup c"
    and "seen c' = seen c"
proof -
  have "set (timeouts c') \<subseteq> set (timeouts c) \<and> clock c \<le> clock c' \<and>
        revealCleanup c' = revealCleanup c \<and> pauseCleanup c' = pauseCleanup c \<and>
        seen c' = seen c"
  proof (cases ev)
    case (Fire i)
    with assms show ?thesis
      by (auto simp: fireTimeout_def lift_Inr dest!: fireInterval_Inr split: option.splits)
  qed (use assms in \<open>auto simp: lift_Inr timeouts_clearTimeout split: if_splits option.splits\<close>)
  then show "set (timeouts c') \<subseteq> set (timeouts c)" and "clock c \<le> clock c'"
    and "revealCleanup c' = revealCleanup c" and "pauseCleanup c' = pauseCleanup c"
    and "seen c' = seen c" by simp_all
qed

lemma step_wellTimed:
  assumes "step c (env, ev) = Inr c'" and "wellTimed c"
  shows "wellTimed c'"
proof -
  from assms(1) obtain c0 where h: "handle c ev = Inr c0" and k: "commit env c0 = Inr c'"
    by (auto simp: step_def andThen_def split: sum.splits)
  note h0 = handle_Inr [OF h]
  from assms(2) have inv: "settled c" "timersOwned c" "quietWhilePaused c"
    by (simp_all add: wellTimed_def)
  have o0: "timersOwned c0"
    using inv(2) h0(1,3,4) by (auto simp: timersOwned_def)
  have p0: "pausePending c0"
  proof (cases "isPaused (state c)")
    case True
    with inv(3) h0(1) show ?thesis by (simp add: quietWhilePaused_def pausePending_def)
  next
    case False
    have "depPaused (seen c0) = depPaused (currentDeps c)"
      using inv(1) h0(5) by (simp add: settled_def)
    also have "\<dots> = isPaused (state c)" by (simp add: currentDeps_def)
    finally have "depPaused (seen c0) = False" using False by simp
    then show ?thesis
      by (auto simp: pausePending_def pauseDepsChanged_def currentDeps_def)
  qed
  from settle_owned [OF k [unfolded commit_def] o0 p0]
  have r: "timersOwned c'" "pausePending c'" by simp_all
  from commit_settles [OF k] have s: "settled c'" .
  with r(2) have "quietWhilePaused c'"
    by (auto simp: quietWhilePaused_def pausePending_def pauseDepsChanged_def settled_def)
  with r s show ?thesis by (simp add: wellTimed_def)
qed

lemma step_notBefore:
  assumes "step c (env, ev) = Inr c'" and "notBefore t c"
  shows "notBefore t c'"
proof -
  from assms(1) obtain c0 where h: "handle c ev = Inr c0" and k: "commit env c0 = Inr c'"
    by (auto simp: step_def andThen_def split: sum.splits)
  note h0 = handle_Inr [OF h]
  have "notBefore t c0"
    using assms(2) h0(1,2) by (auto simp: notBefore_def)
  from settle_notBefore [OF k [unfolded commit_def] this] show ?thesis .
qed

lemma wellTimed_mounted: "wellTimed mounted"
  by (simp add: wellTimed_def settled_def timersOwned_def quietWhilePaused_def mounted_def
      currentDeps_def currentQuestion_def initialState_def)

lemma run_wellTimed: "run c es = Inr c' \<Longrightarrow> wellTimed c \<Longrightarrow> wellTimed c'"
proof (induction es arbitrary: c)
  case Nil
  then show ?case by simp
next
  case (Cons e es)
  obtain env ev where e: "e = (env, ev)" by (cases e)
  from Cons.prems(1) obtain c1 where 1: "step c (env, ev) = Inr c1" and 2: "run c1 es = Inr c'"
    by (auto simp: e andThen_def split: sum.splits)
  from Cons.IH [OF 2 step_wellTimed [OF 1 Cons.prems(2)]] show ?case .
qed

lemma run_notBefore: "run c es = Inr c' \<Longrightarrow> notBefore t c \<Longrightarrow> notBefore t c'"
proof (induction es arbitrary: c)
  case Nil
  then show ?case by simp
next
  case (Cons e es)
  obtain env ev where e: "e = (env, ev)" by (cases e)
  from Cons.prems(1) obtain c1 where 1: "step c (env, ev) = Inr c1" and 2: "run c1 es = Inr c'"
    by (auto simp: e andThen_def split: sum.splits)
  from Cons.IH [OF 2 step_notBefore [OF 1 Cons.prems(2)]] show ?case .
qed

lemma reachable_wellTimed: "run mounted es = Inr c \<Longrightarrow> wellTimed c"
  using run_wellTimed wellTimed_mounted by blast

subsection \<open>Pausing and resuming\<close>

lemma commit_one_pass:
  assumes "commit env c0 = Inr c'" and "\<not> settled c0" and "\<not> synthesisDepsChanged c0"
  shows "runEffects env c0 = Inr c'"
proof -
  from assms(1,2) obtain c1 where 1: "runEffects env c0 = Inr c1" and 2: "settle 2 env c1 = Inr c'"
    by (auto simp: commit_def numeral_3_eq_3 numeral_2_eq_2 settled_def andThen_def
        split: sum.splits if_splits)
  from assms(3) have "\<not> (synthesisDepsChanged c0 \<and>
      synthesisAction (randomSort env) (state c0) \<noteq> None)" by simp
  from runEffects_state(4) [OF 1 this] runEffects_state(1) [OF 1] have "settled c1"
    by (simp add: settled_def)
  from settle_settled_id [OF this 2] 1 show ?thesis by simp
qed

lemma handle_ClickPause:
  "dataset c \<noteq> None \<Longrightarrow>
   handle c ClickPause = Inr (c\<lparr>state := (state c)\<lparr>isPaused := \<not> isPaused (state c)\<rparr>\<rparr>)"
  by (auto simp: lift_def togglePause_def)

lemma toggled_deps:
  assumes "settled c"
  defines "c0 \<equiv> c\<lparr>state := (state c)\<lparr>isPaused := \<not> isPaused (state c)\<rparr>\<rparr>"
  shows "\<not> settled c0" and "\<not> synthesisDepsChanged c0" and "revealDepsChanged c0"
    and "pauseDepsChanged c0" and "seen c0 = seen c"
proof -
  have d: "currentDeps c0 = (currentDeps c)\<lparr>depPaused := \<not> isPaused (state c)\<rparr>"
    by (simp add: c0_def currentDeps_def split: option.splits)
  have s: "seen c0 = currentDeps c" using assms(1) by (simp add: c0_def settled_def)
  have p: "depPaused (currentDeps c) = isPaused (state c)" by (simp add: currentDeps_def)
  show "seen c0 = seen c" by (simp add: c0_def)
  show "pauseDepsChanged c0" using p by (simp add: pauseDepsChanged_def d s)
  then show "revealDepsChanged c0" by (simp add: pauseDepsChanged_def revealDepsChanged_def)
  show "\<not> synthesisDepsChanged c0"
    by (simp add: synthesisDepsChanged_def questionChanged_def d s)
  show "\<not> settled c0"
    using p by (auto simp: settled_def d s dest: arg_cong [where f = depPaused])
qed

lemma resume_timeouts:
  assumes "timeouts w = []" and "revealDepsChanged r" and "pauseDepsChanged r"
    and "currentAnswer (state r) \<noteq> None" and "showingAnswer (state r)"
    and "\<not> quizCompleted (state r)" and "\<not> isPaused (state r)"
  shows "map snd (timeouts (pauseEffect r (revealEffect r w))) = [clock w + 5000, clock w + 5000]"
  using assms
  by (simp add: revealEffect_def pauseEffect_def Let_def timeouts_clearTimeout split: option.splits)

text \<open>
  C5. Take a component that a run has reached and that is not paused; pause it; let
  anything happen until a moment at which it is paused and in the reveal phase (an answer
  is selected and shown, the quiz is not completed); resume it there; let anything happen
  afterwards. Then the pause has left no timeout pending, so the reveal timer is
  cancelled and what had elapsed of it is gone, and none is pending at the later paused
  moment. The resume sets timeouts due exactly 5000 after it: two of them, one by each of
  the two effects that watch the pause flag. And whatever happens later, every pending
  timeout is due 5000 or more after the resume, so that a timeout that fires, which is
  the only automatic \<open>NEXT_QUESTION\<close>, fires with the clock at least 5000 past the resume.
\<close>

theorem reveal_timer_pause_resume:
  assumes reach: "run mounted es = Inr c"
    and running: "\<not> isPaused (state c)" "dataset c \<noteq> None"
    and pause: "step c (env1, ClickPause) = Inr c1"
    and wait: "run c1 es1 = Inr c2"
    and paused: "isPaused (state c2)" "dataset c2 \<noteq> None"
    and revealing: "currentAnswer (state c2) \<noteq> None" "showingAnswer (state c2)"
                   "\<not> quizCompleted (state c2)"
    and resume: "step c2 (env2, ClickPause) = Inr c3"
    and later: "run c3 es3 = Inr c4"
  shows "isPaused (state c1) \<and> timeouts c1 = [] \<and> timeouts c2 = [] \<and>
         \<not> isPaused (state c3) \<and>
         map snd (timeouts c3) = [clock c2 + 5000, clock c2 + 5000] \<and>
         (\<forall>x \<in> set (timeouts c4).
            clock c2 + 5000 \<le> snd x \<and>
            (\<forall>c5. fireTimeout x c4 = Inr c5 \<longrightarrow> clock c2 + 5000 \<le> clock c5))"
proof -
  note wt = reachable_wellTimed [OF reach]
  then have sc: "settled c" by (simp add: wellTimed_def)
  let ?c0 = "c\<lparr>state := (state c)\<lparr>isPaused := \<not> isPaused (state c)\<rparr>\<rparr>"
  from pause have k: "commit env1 ?c0 = Inr c1"
    by (simp add: step_def handle_ClickPause [OF running(2)] andThen_def del: handle.simps)
  note t = toggled_deps [OF sc]
  have e1: "runEffects env1 ?c0 = Inr c1" by (rule commit_one_pass [OF k t(1) t(2)])
  have "currentDeps c1 = currentDeps ?c0"
    by (rule runEffects_state(4) [OF e1]) (simp add: t(2))
  then have "depPaused (currentDeps c1) = depPaused (currentDeps ?c0)" by simp
  with running(1) have p1: "isPaused (state c1)" by (simp add: currentDeps_def)
  have wt1: "wellTimed c1" by (rule step_wellTimed [OF pause wt])
  with p1 have q1: "timeouts c1 = []" by (simp add: wellTimed_def quietWhilePaused_def)
  have wt2: "wellTimed c2" by (rule run_wellTimed [OF wait wt1])
  with paused(1) have q2: "timeouts c2 = []" by (simp add: wellTimed_def quietWhilePaused_def)
  from wt2 have sc2: "settled c2" by (simp add: wellTimed_def)
  let ?d0 = "c2\<lparr>state := (state c2)\<lparr>isPaused := \<not> isPaused (state c2)\<rparr>\<rparr>"
  from resume have k2: "commit env2 ?d0 = Inr c3"
    by (simp add: step_def handle_ClickPause [OF paused(2)] andThen_def del: handle.simps)
  note t2 = toggled_deps [OF sc2]
  have e2: "runEffects env2 ?d0 = Inr c3" by (rule commit_one_pass [OF k2 t2(1) t2(2)])
  have "currentDeps c3 = currentDeps ?d0"
    by (rule runEffects_state(4) [OF e2]) (simp add: t2(2))
  then have "depPaused (currentDeps c3) = depPaused (currentDeps ?d0)" by simp
  with paused(1) have p3: "\<not> isPaused (state c3)" by (simp add: currentDeps_def)
  from e2 obtain w where w: "timeouts w = timeouts (runCleanups ?d0)" "clock w = clock ?d0"
    "timeouts c3 = timeouts (pauseEffect ?d0 (revealEffect ?d0 w))"
    by (rule runEffects_timeouts)
  have "timeouts w = []" using q2 by (simp add: w timeouts_runCleanups)
  from resume_timeouts [OF this t2(3) t2(4)] revealing paused(1)
  have m3: "map snd (timeouts c3) = [clock c2 + 5000, clock c2 + 5000]"
    by (simp add: w)
  have nb2: "notBefore (clock c2) c2" using q2 by (simp add: notBefore_def)
  from run_notBefore [OF later step_notBefore [OF resume nb2]]
  have nb4: "notBefore (clock c2) c4" .
  have "clock c2 + 5000 \<le> snd x \<and>
        (\<forall>c5. fireTimeout x c4 = Inr c5 \<longrightarrow> clock c2 + 5000 \<le> clock c5)"
    if "x \<in> set (timeouts c4)" for x
  proof -
    from nb4 that have "clock c2 + 5000 \<le> snd x" by (simp add: notBefore_def)
    then show ?thesis by (auto simp: fireTimeout_def lift_Inr)
  qed
  with p1 q1 q2 p3 m3 show ?thesis by blast
qed

subsection \<open>The interval and the speed level\<close>

lemma intervals_clearInterval:
  "intervals (clearInterval t c) =
     (case t of None \<Rightarrow> intervals c | Some i \<Rightarrow> filter (\<lambda>x. intervalId x \<noteq> i) (intervals c))"
  by (simp add: clearInterval_def split: option.splits)

lemma runEffects_intervals:
  assumes "runEffects env r = Inr c" and "intervalsCurrent r"
  shows "intervalsCurrent c" and "\<not> questionChanged r \<Longrightarrow> remainingTime c = remainingTime r"
proof -
  from assms(1) obtain w1 w3 where
    1: "shuffleOptionsEffect env r (runCleanups r) = Inr w1" and
    3: "optionSynthesisEffect env r (countdownEffect r w1) = Inr w3" and
    c: "c = (pauseEffect r (revealEffect r w3))\<lparr>seen := currentDeps r\<rparr>"
    by (auto simp: runEffects_def andThen_def split: sum.splits)
  note s1 = shuffleOptionsEffect_Inr [OF 1]
  note s3 = optionSynthesisEffect_Inr [OF 3]
  show "remainingTime c = remainingTime r" if "\<not> questionChanged r"
    using that s1 s3 by (simp add: c)
  have ic: "intervals c = intervals (countdownEffect r w1)"
    and cc: "countdownCleanup c = countdownCleanup (countdownEffect r w1)"
    using s3 by (simp_all add: c)
  have w1: "intervals w1 = intervals (runCleanups r)" "countdownCleanup w1 = countdownCleanup r"
    using s1 by simp_all
  show "intervalsCurrent c"
  proof (cases "countdownDepsChanged r")
    case True
    then have "intervals w1 = []"
      using assms(2)
      by (auto simp: w1 runCleanups_def Let_def intervals_clearInterval intervalsCurrent_def
          filter_empty_conv split: option.splits)
    with True
    have "\<forall>iv \<in> set (intervals (countdownEffect r w1)).
            Some (intervalId iv) = countdownCleanup (countdownEffect r w1) \<and>
            closedSpeed iv = speedLevel (state r)"
      by (auto simp: countdownEffect_def intervals_clearInterval split: option.splits)
    moreover have "depSpeed (seen c) = speedLevel (state r)"
      by (simp add: c currentDeps_def)
    ultimately show ?thesis
      unfolding intervalsCurrent_def ic cc by simp
  next
    case False
    then have "depSpeed (currentDeps r) = depSpeed (seen r)"
      by (simp add: countdownDepsChanged_def)
    moreover have "depSpeed (seen c) = depSpeed (currentDeps r)" by (simp add: c)
    moreover have "intervals (countdownEffect r w1) = intervals r"
      "countdownCleanup (countdownEffect r w1) = countdownCleanup r"
      using False by (simp_all add: countdownEffect_def w1 runCleanups_def Let_def)
    ultimately show ?thesis
      using assms(2) unfolding intervalsCurrent_def ic cc by simp
  qed
qed

lemma runEffects_unchanged:
  assumes "runEffects env r = Inr c" and "\<not> questionChanged r" and "\<not> synthesisDepsChanged r"
  shows "state c = state r" and "remainingTime c = remainingTime r"
proof -
  from assms(1) obtain w1 w3 where
    1: "shuffleOptionsEffect env r (runCleanups r) = Inr w1" and
    3: "optionSynthesisEffect env r (countdownEffect r w1) = Inr w3" and
    c: "c = (pauseEffect r (revealEffect r w3))\<lparr>seen := currentDeps r\<rparr>"
    by (auto simp: runEffects_def andThen_def split: sum.splits)
  note s1 = shuffleOptionsEffect_Inr [OF 1]
  note s3 = optionSynthesisEffect_Inr [OF 3]
  from assms(3) s3 have "w3 = countdownEffect r w1" by (simp split: if_splits)
  with s1 assms(2) show "state c = state r" and "remainingTime c = remainingTime r"
    by (simp_all add: c)
qed

lemma fireInterval_intervals:
  assumes "fireInterval iv c = Inr c'"
  shows "countdownCleanup c' = countdownCleanup c"
    and "(\<lambda>x. (intervalId x, closedSpeed x)) ` set (intervals c') \<subseteq>
         (\<lambda>x. (intervalId x, closedSpeed x)) ` set (intervals c)"
proof -
  let ?m = "map (\<lambda>x. if intervalId x = intervalId iv then x\<lparr>nextFire := nextFire x + 100\<rparr> else x)
              (intervals c)"
  define c1 where "c1 = c\<lparr>clock := max (clock c) (nextFire iv), intervals := ?m\<rparr>"
  define c2 where "c2 = (if remainingTime c1 \<le> 100
                         then clearInterval (closedTimer iv) (clearInterval (Some (intervalId iv)) c1)
                         else c1)"
  from assms obtain s' t' where c': "c' = c2\<lparr>state := s', remainingTime := t'\<rparr>"
    unfolding fireInterval_def Let_def c1_def [symmetric] c2_def [symmetric]
    by (auto simp: andThen_def split: sum.splits prod.splits)
  have 2: "set (intervals c2) \<subseteq> set (intervals c1)" "countdownCleanup c2 = countdownCleanup c1"
    by (auto simp: c2_def intervals_clearInterval split: option.splits)
  have 1: "intervals c1 = ?m" "countdownCleanup c1 = countdownCleanup c"
    by (simp_all add: c1_def)
  have "map (\<lambda>x. (intervalId x, closedSpeed x)) ?m =
        map (\<lambda>x. (intervalId x, closedSpeed x)) (intervals c)"
    unfolding map_map by (rule map_cong [OF refl]) auto
  then have "set (map (\<lambda>x. (intervalId x, closedSpeed x)) ?m) =
             set (map (\<lambda>x. (intervalId x, closedSpeed x)) (intervals c))"
    by (rule arg_cong)
  then have m: "(\<lambda>x. (intervalId x, closedSpeed x)) ` set ?m =
                (\<lambda>x. (intervalId x, closedSpeed x)) ` set (intervals c)"
    by (simp only: set_map)
  show "countdownCleanup c' = countdownCleanup c" by (simp add: c' 1 2)
  have "set (intervals c') \<subseteq> set ?m" using 1 2 by (simp add: c')
  then have "(\<lambda>x. (intervalId x, closedSpeed x)) ` set (intervals c') \<subseteq>
             (\<lambda>x. (intervalId x, closedSpeed x)) ` set ?m" by (rule image_mono)
  with m show "(\<lambda>x. (intervalId x, closedSpeed x)) ` set (intervals c') \<subseteq>
               (\<lambda>x. (intervalId x, closedSpeed x)) ` set (intervals c)" by simp
qed

lemma handle_intervals:
  assumes "handle c ev = Inr c'" and "intervalsCurrent c"
  shows "intervalsCurrent c'"
proof -
  let ?key = "\<lambda>x. (intervalId x, closedSpeed x)"
  have "countdownCleanup c' = countdownCleanup c \<and>
        ?key ` set (intervals c') \<subseteq> ?key ` set (intervals c)"
  proof (cases "\<exists>i iv. ev = Fire i \<and> find (\<lambda>x. intervalId x = i) (intervals c) = Some iv")
    case True
    then obtain i iv where "ev = Fire i" "find (\<lambda>x. intervalId x = i) (intervals c) = Some iv"
      by blast
    with assms(1) have "fireInterval iv c = Inr c'" by simp
    from fireInterval_intervals [OF this] show ?thesis by simp
  next
    case False
    have "countdownCleanup c' = countdownCleanup c \<and> set (intervals c') \<subseteq> set (intervals c)"
    proof (cases ev)
      case (Fire i)
      with False have "find (\<lambda>x. intervalId x = i) (intervals c) = None" by simp
      with Fire assms(1) show ?thesis
        by (auto simp: fireTimeout_def lift_Inr split: option.splits)
    qed (use assms(1) in \<open>auto simp: lift_Inr intervals_clearInterval split: if_splits option.splits\<close>)
    then show ?thesis by (simp add: image_mono)
  qed
  then have k: "countdownCleanup c' = countdownCleanup c"
    and i: "?key ` set (intervals c') \<subseteq> ?key ` set (intervals c)"
    by simp_all
  show ?thesis
    unfolding intervalsCurrent_def
  proof
    fix x assume "x \<in> set (intervals c')"
    then have "?key x \<in> ?key ` set (intervals c')" by (rule imageI)
    with i have "?key x \<in> ?key ` set (intervals c)" by blast
    then obtain y where "y \<in> set (intervals c)" "?key x = ?key y" by (rule imageE)
    then have "y \<in> set (intervals c)" "intervalId x = intervalId y"
      "closedSpeed x = closedSpeed y" by simp_all
    with assms(2) k handle_Inr(5) [OF assms(1)]
    show "Some (intervalId x) = countdownCleanup c' \<and> closedSpeed x = depSpeed (seen c')"
      by (simp add: intervalsCurrent_def)
  qed
qed

lemma settle_intervals:
  "settle n env c = Inr c' \<Longrightarrow> intervalsCurrent c \<Longrightarrow> intervalsCurrent c'"
proof (induction n arbitrary: c)
  case 0
  then show ?case by simp
next
  case (Suc n)
  show ?case
  proof (cases "currentDeps c = seen c")
    case True
    with Suc.prems show ?thesis by (auto simp: andThen_def split: sum.splits)
  next
    case False
    with Suc.prems(1) obtain c1 where 1: "runEffects env c = Inr c1"
      and 2: "settle n env c1 = Inr c'"
      by (auto simp: andThen_def split: sum.splits)
    from Suc.IH [OF 2 runEffects_intervals(1) [OF 1 Suc.prems(2)]] show ?thesis .
  qed
qed

lemma step_intervals:
  assumes "step c (env, ev) = Inr c'" and "intervalsCurrent c"
  shows "intervalsCurrent c'"
proof -
  from assms(1) obtain c0 where h: "handle c ev = Inr c0" and k: "commit env c0 = Inr c'"
    by (auto simp: step_def andThen_def split: sum.splits)
  from settle_intervals [OF k [unfolded commit_def] handle_intervals [OF h assms(2)]]
  show ?thesis .
qed

lemma run_intervals: "run c es = Inr c' \<Longrightarrow> intervalsCurrent c \<Longrightarrow> intervalsCurrent c'"
proof (induction es arbitrary: c)
  case Nil
  then show ?case by simp
next
  case (Cons e es)
  obtain env ev where e: "e = (env, ev)" by (cases e)
  from Cons.prems(1) obtain c1 where 1: "step c (env, ev) = Inr c1" and 2: "run c1 es = Inr c'"
    by (auto simp: e andThen_def split: sum.splits)
  from Cons.IH [OF 2 step_intervals [OF 1 Cons.prems(2)]] show ?case .
qed

lemma reachable_intervalsCurrent: "run mounted es = Inr c \<Longrightarrow> intervalsCurrent c"
  using run_intervals [of mounted es c] by (simp add: intervalsCurrent_def mounted_def)

lemma runEffects_fresh_intervals:
  assumes "runEffects env r = Inr c" and "intervalsCurrent r" and "countdownDepsChanged r"
  shows "\<forall>iv \<in> set (intervals c). nextFire iv = clock r + 100"
proof -
  from assms(1) obtain w1 w3 where
    1: "shuffleOptionsEffect env r (runCleanups r) = Inr w1" and
    3: "optionSynthesisEffect env r (countdownEffect r w1) = Inr w3" and
    c: "c = (pauseEffect r (revealEffect r w3))\<lparr>seen := currentDeps r\<rparr>"
    by (auto simp: runEffects_def andThen_def split: sum.splits)
  note s1 = shuffleOptionsEffect_Inr [OF 1]
  note s3 = optionSynthesisEffect_Inr [OF 3]
  have ic: "intervals c = intervals (countdownEffect r w1)"
    using s3 by (simp add: c)
  have w1: "intervals w1 = intervals (runCleanups r)" "clock w1 = clock r"
    using s1 by simp_all
  have "intervals w1 = []"
    using assms(2,3)
    by (auto simp: w1 runCleanups_def Let_def intervals_clearInterval intervalsCurrent_def
        filter_empty_conv split: option.splits)
  then have "\<forall>iv \<in> set (intervals (countdownEffect r w1)). nextFire iv = clock r + 100"
    using assms(3) w1(2)
    by (auto simp: countdownEffect_def intervals_clearInterval split: option.splits)
  then show ?thesis unfolding ic .
qed

lemma fireInterval_decrement:
  assumes "fireInterval iv c = Inr c'" and "100 < remainingTime c"
  shows "remainingTime c' = fl (remainingTime c - tickDecrement (closedSpeed iv))"
    and "state c' = state c"
    and "clock c' = max (clock c) (nextFire iv)"
    and "iv \<in> set (intervals c) \<Longrightarrow> iv\<lparr>nextFire := nextFire iv + 100\<rparr> \<in> set (intervals c')"
proof -
  from assms have c': "c' = c\<lparr>clock := max (clock c) (nextFire iv),
      intervals := map (\<lambda>x. if intervalId x = intervalId iv
                             then x\<lparr>nextFire := nextFire x + 100\<rparr> else x) (intervals c),
      state := state c,
      remainingTime := fl (remainingTime c - tickDecrement (closedSpeed iv))\<rparr>"
    by (auto simp: fireInterval_def Let_def andThen_def intervalCallback_def split: if_splits)
  show "remainingTime c' = fl (remainingTime c - tickDecrement (closedSpeed iv))"
    and "state c' = state c" and "clock c' = max (clock c) (nextFire iv)"
    by (simp_all add: c')
  show "iv\<lparr>nextFire := nextFire iv + 100\<rparr> \<in> set (intervals c')" if "iv \<in> set (intervals c)"
  proof -
    have "(\<lambda>x. if intervalId x = intervalId iv then x\<lparr>nextFire := nextFire x + 100\<rparr> else x) iv
            \<in> set (intervals c')"
      unfolding c' using that by (simp del: if_True) 
    then show ?thesis by simp
  qed
qed

subsection \<open>Rounding\<close>

lemma roundHalfEven_of_int [simp]: "roundHalfEven (of_int n) = n"
  by (simp add: roundHalfEven_def)

lemma roundHalfEven_scaled [simp]: "roundHalfEven (of_int k * 2 ^ n) = k * 2 ^ n"
  using roundHalfEven_of_int [of "k * 2 ^ n"] by simp

text \<open>A whole number below \<open>2 ^ 53\<close> is a double.\<close>

lemma fl_of_int:
  assumes "0 < k" and "k < 2 ^ 53"
  shows "fl (of_int k) = of_int k"
proof -
  let ?e = "bitlen k - 1"
  let ?n = "nat (52 - ?e)"
  let ?x = "of_int k :: rat"
  have "bitlen k \<le> 53" using assms by (simp add: bitlen_le_iff_power)
  moreover have "0 < bitlen k"
    using assms(1) bitlen_nonneg [of k] by (simp add: order.strict_iff_order bitlen_eq_zero_iff)
  ultimately have e: "0 \<le> ?e" "?e \<le> 52" by simp_all
  have a: "\<bar>?x\<bar> = ?x" using assms(1) by simp
  have bin: "binade ?x = ?e" using assms(1) by (simp add: binade_def)
  have m: "max (?e - 52) (- 1074) = ?e - 52" using e by simp
  have u: "pow2 (?e - 52) = 1 / 2 ^ ?n"
    using e by (cases "?e = 52") (simp_all add: pow2_def)
  have ulp: "pow2 (max (binade ?x - 52) (- 1074)) = 1 / 2 ^ ?n"
    by (simp only: bin m u)
  have q: "?x / (1 / 2 ^ ?n) = of_int (k * 2 ^ ?n)" by simp
  have "fl ?x = sgn ?x * of_int (roundHalfEven (\<bar>?x\<bar> / pow2 (max (binade \<bar>?x\<bar> - 52) (- 1074))))
                  * pow2 (max (binade \<bar>?x\<bar> - 52) (- 1074))"
    using assms(1) unfolding fl_def Let_def by (simp only: of_int_eq_0_iff) simp
  also have "\<dots> = sgn ?x * of_int (roundHalfEven (of_int (k * 2 ^ ?n))) * (1 / 2 ^ ?n)"
    by (simp only: a ulp q)
  also have "\<dots> = ?x" using assms(1) by simp
  finally show ?thesis .
qed

text \<open>
  What a tick takes off at the three speed levels; at level 3 it is the double nearest
  to \<open>100 / 3\<close>, which is 33.333333333333336 to seventeen digits.
\<close>

lemma tickDecrement_values:
  "tickDecrement 1 = 100" "tickDecrement 2 = 50"
  "tickDecrement 3 = 4691249611844267 / 140737488355328"
  by code_simp+

text \<open>
  The first tick at level 3 leaves 4966.666666666667, the double nearest to the
  difference, which is not \<open>5000 - 100 / 3\<close>.
\<close>

lemma tick_at_level_three:
  "fl (5000 - tickDecrement 3) = 5460907751287467 / 1099511627776"
  "fl (5000 - tickDecrement 3) \<noteq> 5000 - 100 / 3"
  by code_simp+

lemma js_rem_cycle:
  "n \<in> {1, 2, 3} \<Longrightarrow> js_rem n 3 + 1 = (if n = 3 then 1 else n + 1)"
  by (auto simp: js_rem_def)

lemma handle_ClickSpeed:
  "dataset c \<noteq> None \<Longrightarrow>
   handle c ClickSpeed =
     Inr (c\<lparr>state := (state c)\<lparr>speedLevel := js_rem (speedLevel (state c)) 3 + 1\<rparr>\<rparr>)"
  by (auto simp: lift_def toggleSpeedLevel_def)

text \<open>
  C6, amended. The remaining time is 5000 when the component is mounted, and the
  shuffle effect sets it to 5000 whenever a question with options becomes current: the
  countdown starts at 5000 at every speed level. In a reachable component with speed
  level 1, 2 or 3, a click on the speed button leaves the remaining time as it is and
  changes nothing of the state but the speed level, which goes 1, 2, 3, 1. Every interval
  that runs after the click closes over the new level and is first due 100 units after
  the click; a tick of it that finds more than 100 units left comes 100 units after the
  click, takes the decrement of the new level off the remaining time, rounding the
  difference to a double, leaves the state alone and leaves the interval due 100 units
  later. The decrement is 100 at level 1, 50 at level 2 and the double nearest to
  \<open>100 / 3\<close> at level 3.
\<close>

theorem speed_change_rescales_decrement:
  assumes reach: "run mounted es = Inr c"
    and loaded: "dataset c \<noteq> None"
    and level: "speedLevel (state c) \<in> {1, 2, 3}"
    and click: "step c (env, ClickSpeed) = Inr c'"
  shows "remainingTime mounted = 5000 \<and>
         (questionChanged r \<and> shuffleAction (pick env') (state r) \<noteq> None \<and>
            shuffleOptionsEffect env' r w = Inr w' \<longrightarrow> remainingTime w' = 5000) \<and>
         remainingTime c' = remainingTime c \<and>
         state c' = (state c)\<lparr>speedLevel :=
                       (if speedLevel (state c) = 3 then 1 else speedLevel (state c) + 1)\<rparr> \<and>
         (\<forall>iv \<in> set (intervals c').
            closedSpeed iv = speedLevel (state c') \<and>
            nextFire iv = clock c' + 100 \<and>
            (\<forall>c''. 100 < remainingTime c' \<and> fireInterval iv c' = Inr c'' \<longrightarrow>
               remainingTime c'' =
                 fl (remainingTime c' - tickDecrement (speedLevel (state c'))) \<and>
               state c'' = state c' \<and>
               clock c'' = clock c' + 100 \<and>
               iv\<lparr>nextFire := nextFire iv + 100\<rparr> \<in> set (intervals c''))) \<and>
         tickDecrement 1 = 100 \<and> tickDecrement 2 = 50 \<and>
         tickDecrement 3 = 4691249611844267 / 140737488355328"
proof -
  let ?n = "if speedLevel (state c) = 3 then 1 else speedLevel (state c) + 1"
  let ?c0 = "c\<lparr>state := (state c)\<lparr>speedLevel := ?n\<rparr>\<rparr>"
  have sc: "settled c" using reachable_wellTimed [OF reach] by (simp add: wellTimed_def)
  have h: "handle c ClickSpeed = Inr ?c0"
    using js_rem_cycle [OF level] by (simp add: handle_ClickSpeed [OF loaded] del: handle.simps)
  from click have k: "commit env ?c0 = Inr c'"
    by (simp add: step_def h andThen_def del: handle.simps)
  have d: "currentDeps ?c0 = (currentDeps c)\<lparr>depSpeed := ?n\<rparr>"
    by (simp add: currentDeps_def split: option.splits)
  have s0: "seen ?c0 = currentDeps c" using sc by (simp add: settled_def)
  have ne: "?n \<noteq> speedLevel (state c)" by simp
  have sp0: "depSpeed (currentDeps ?c0) \<noteq> depSpeed (seen ?c0)"
  proof
    assume "depSpeed (currentDeps ?c0) = depSpeed (seen ?c0)"
    then have "?n = speedLevel (state c)" by (simp only: d s0) (simp add: currentDeps_def)
    with ne show False by simp
  qed
  then have u: "\<not> settled ?c0" by (auto simp only: settled_def)
  from sp0 have cd: "countdownDepsChanged ?c0"
    by (simp only: countdownDepsChanged_def) metis
  have q: "\<not> questionChanged ?c0" by (simp add: questionChanged_def d s0)
  then have y: "\<not> synthesisDepsChanged ?c0" by (simp add: synthesisDepsChanged_def d s0)
  have e: "runEffects env ?c0 = Inr c'" by (rule commit_one_pass [OF k u y])
  from runEffects_unchanged [OF e q y]
  have st: "state c' = (state c)\<lparr>speedLevel := ?n\<rparr>" and rt: "remainingTime c' = remainingTime c"
    by simp_all
  have ic0: "intervalsCurrent ?c0"
    by (rule handle_intervals [OF h reachable_intervalsCurrent [OF reach]])
  have ck: "clock c' = clock ?c0" by (rule runEffects_state(2) [OF e])
  from runEffects_fresh_intervals [OF e ic0 cd] ck
  have due: "\<forall>iv \<in> set (intervals c'). nextFire iv = clock c' + 100" by simp
  have ic: "intervalsCurrent c'"
    by (rule step_intervals [OF click reachable_intervalsCurrent [OF reach]])
  have sc': "settled c'" using step_wellTimed [OF click reachable_wellTimed [OF reach]]
    by (simp add: wellTimed_def)
  then have "depSpeed (seen c') = depSpeed (currentDeps c')" by (simp add: settled_def)
  then have "depSpeed (seen c') = speedLevel (state c')" by (simp add: currentDeps_def)
  with ic have sp: "\<forall>iv \<in> set (intervals c'). closedSpeed iv = speedLevel (state c')"
    by (simp add: intervalsCurrent_def)
  have dec: "remainingTime c'' = fl (remainingTime c' - tickDecrement (speedLevel (state c'))) \<and>
             state c'' = state c' \<and> clock c'' = clock c' + 100 \<and>
             iv\<lparr>nextFire := nextFire iv + 100\<rparr> \<in> set (intervals c'')"
    if "iv \<in> set (intervals c')" "100 < remainingTime c'" "fireInterval iv c' = Inr c''"
    for iv c''
  proof -
    note f = fireInterval_decrement [OF that(3) that(2)]
    from sp that(1) have "closedSpeed iv = speedLevel (state c')" by blast
    moreover from due that(1) have "nextFire iv = clock c' + 100" by blast
    ultimately show ?thesis using f(1,2,3) f(4) [OF that(1)] by simp
  qed
  have five: "remainingTime w' = 5000"
    if "questionChanged r" "shuffleAction (pick env') (state r) \<noteq> None"
       "shuffleOptionsEffect env' r w = Inr w'"
    using that
    by (auto simp: shuffleOptionsEffect_def andThen_def split: option.splits sum.splits)
  show ?thesis
  proof (intro conjI)
    show "remainingTime mounted = 5000" by (simp add: mounted_def)
    show "questionChanged r \<and> shuffleAction (pick env') (state r) \<noteq> None \<and>
            shuffleOptionsEffect env' r w = Inr w' \<longrightarrow> remainingTime w' = 5000"
      using five by blast
    show "remainingTime c' = remainingTime c" by (rule rt)
    show "state c' = (state c)\<lparr>speedLevel := ?n\<rparr>" by (rule st)
    show "\<forall>iv \<in> set (intervals c').
            closedSpeed iv = speedLevel (state c') \<and>
            nextFire iv = clock c' + 100 \<and>
            (\<forall>c''. 100 < remainingTime c' \<and> fireInterval iv c' = Inr c'' \<longrightarrow>
               remainingTime c'' =
                 fl (remainingTime c' - tickDecrement (speedLevel (state c'))) \<and>
               state c'' = state c' \<and>
               clock c'' = clock c' + 100 \<and>
               iv\<lparr>nextFire := nextFire iv + 100\<rparr> \<in> set (intervals c''))"
      using sp due dec by blast
    show "tickDecrement 1 = 100" "tickDecrement 2 = 50"
      "tickDecrement 3 = 4691249611844267 / 140737488355328"
      by (rule tickDecrement_values)+
  qed
qed

subsection \<open>Sample runs\<close>

lemma step_upload_two: "step mounted (env0, Upload [q_cat, q_dog]) = Inr (uploaded [q_cat, q_dog])"
  by code_simp

lemma step_answer_two:
  "step (uploaded [q_cat, q_dog]) (env0, ClickOption ''cat'') = Inr (revealing [q_cat, q_dog] 0)"
  by code_simp

lemma step_elapse_two:
  "step (revealing [q_cat, q_dog] 0) (env0, Elapse 1000) = Inr (revealing [q_cat, q_dog] 1000)"
  by code_simp

lemma step_pause_two:
  "step (revealing [q_cat, q_dog] 1000) (env0, ClickPause) = Inr (pausedReveal [q_cat, q_dog] 1000)"
  by code_simp

lemma step_wait_two:
  "step (pausedReveal [q_cat, q_dog] 1000) (env0, Elapse 2000) = Inr (pausedReveal [q_cat, q_dog] 3000)"
  by code_simp

lemma step_resume_two:
  "step (pausedReveal [q_cat, q_dog] 3000) (env0, ClickPause) = Inr (resumedReveal [q_cat, q_dog] 3000)"
  by code_simp

lemma step_later_two:
  "step (resumedReveal [q_cat, q_dog] 3000) (env0, Elapse 500) = Inr (resumedReveal [q_cat, q_dog] 3500)"
  by code_simp

lemma step_upload_one: "step mounted (env0, Upload [q_cat]) = Inr (uploaded [q_cat])"
  by code_simp

lemma step_answer_one:
  "step (uploaded [q_cat]) (env0, ClickOption ''cat'') = Inr (revealing [q_cat] 0)"
  by code_simp

lemma step_elapse_one:
  "step (revealing [q_cat] 0) (env0, Elapse 1000) = Inr (revealing [q_cat] 1000)"
  by code_simp

lemma step_pause_one:
  "step (revealing [q_cat] 1000) (env0, ClickPause) = Inr (pausedReveal [q_cat] 1000)"
  by code_simp

lemma step_wait_one:
  "step (pausedReveal [q_cat] 1000) (env0, Elapse 2000) = Inr (pausedReveal [q_cat] 3000)"
  by code_simp

lemma step_resume_one:
  "step (pausedReveal [q_cat] 3000) (env0, ClickPause) = Inr (resumedReveal [q_cat] 3000)"
  by code_simp

lemma step_fire3_one:
  "step (resumedReveal [q_cat] 3000) (env0, Fire 3) = Inr completedOne"
  by code_simp

lemma handle_fire4_one: "handle completedOne (Fire 4) = Inr overrunOne"
  by code_simp

lemma step_fire4_one: "step completedOne (env0, Fire 4) = Inl TypeError"
  by code_simp

lemma render_overrunOne: "renderView env0 overrunOne = Inl TypeError"
  by code_simp

subsection \<open>The empty list\<close>

lemma handle_upload_empty: "handle mounted (Upload []) = Inr uploadedEmpty"
  by code_simp

lemma render_uploadedEmpty: "renderView env0 uploadedEmpty = Inl TypeError"
  by code_simp

lemma step_upload_empty: "step mounted (env0, Upload []) = Inl TypeError"
  by code_simp

text \<open>
  C4. Loading the empty list should give a session that is completed at once, with
  score 0, and never one that waits for an answer to a question that is not there. The
  program has no case for the empty list: \<open>SET_QUESTIONS\<close> leaves \<open>quizCompleted\<close> false
  as for every list, there is no current question, and the quiz view, which reads
  \<open>currentQuestion.question\<close> whenever the quiz is not completed, throws a \<open>TypeError\<close> in
  the first render after the upload.
\<close>

theorem upload_empty_fails:
  "handleFileUpload initialState [] = Inr (initialState\<lparr>questions := []\<rparr>) \<and>
   quizCompleted (initialState\<lparr>questions := []\<rparr>) = False \<and>
   score (initialState\<lparr>questions := []\<rparr>) = 0 \<and>
   currentQuestion (initialState\<lparr>questions := []\<rparr>) = None \<and>
   handle mounted (Upload []) = Inr uploadedEmpty \<and>
   state uploadedEmpty = initialState\<lparr>questions := []\<rparr> \<and>
   renderView env0 uploadedEmpty = Inl TypeError \<and>
   step mounted (env0, Upload []) = Inl TypeError"
proof -
  have "handleFileUpload initialState [] = Inr (initialState\<lparr>questions := []\<rparr>)"
    by (simp add: handleFileUpload_def)
  moreover have "quizCompleted (initialState\<lparr>questions := []\<rparr>) = False"
    "score (initialState\<lparr>questions := []\<rparr>) = 0"
    "currentQuestion (initialState\<lparr>questions := []\<rparr>) = None"
    by (simp_all add: initialState_def currentQuestion_def)
  moreover have "state uploadedEmpty = initialState\<lparr>questions := []\<rparr>"
    by (simp add: uploadedEmpty_def)
  ultimately show ?thesis
    using handle_upload_empty render_uploadedEmpty step_upload_empty by simp
qed

lemma step_speed: "step (uploaded [q_cat, q_dog]) (env0, ClickSpeed) = Inr spedUp"
  by code_simp

lemma step_tick: "step spedUp (env0, Fire 2) = Inr tickedOnce"
  by code_simp

lemma step_answer_slow: "step tickedOnce (env0, ClickOption ''cat'') = Inr answeredSlow"
  by code_simp

lemma step_next_slow: "step answeredSlow (env0, ClickNext) = Inr secondQuestion"
  by code_simp

lemma run_revealing_two:
  "run mounted [(env0, Upload [q_cat, q_dog]), (env0, ClickOption ''cat''), (env0, Elapse 1000)] =
     Inr (revealing [q_cat, q_dog] 1000)"
  by (simp add: andThen_def step_upload_two step_answer_two step_elapse_two)

text \<open>
  An instance of C5: answer at 0, pause at 1000, resume at 3000, look again at 3500.
\<close>

theorem reveal_timer_pause_resume_witness:
  "run mounted [(env0, Upload [q_cat, q_dog]), (env0, ClickOption ''cat''), (env0, Elapse 1000)] =
     Inr (revealing [q_cat, q_dog] 1000) \<and>
   timeouts (revealing [q_cat, q_dog] 1000) = [(2, 5000)] \<and>
   step (revealing [q_cat, q_dog] 1000) (env0, ClickPause) = Inr (pausedReveal [q_cat, q_dog] 1000) \<and>
   timeouts (pausedReveal [q_cat, q_dog] 1000) = [] \<and>
   run (pausedReveal [q_cat, q_dog] 1000) [(env0, Elapse 2000)] =
     Inr (pausedReveal [q_cat, q_dog] 3000) \<and>
   step (pausedReveal [q_cat, q_dog] 3000) (env0, ClickPause) =
     Inr (resumedReveal [q_cat, q_dog] 3000) \<and>
   map snd (timeouts (resumedReveal [q_cat, q_dog] 3000)) = [3000 + 5000, 3000 + 5000] \<and>
   run (resumedReveal [q_cat, q_dog] 3000) [(env0, Elapse 500)] =
     Inr (resumedReveal [q_cat, q_dog] 3500) \<and>
   (3, 8000) \<in> set (timeouts (resumedReveal [q_cat, q_dog] 3500)) \<and>
   clock (pausedReveal [q_cat, q_dog] 3000) + 5000 \<le> snd (3 :: nat, 8000 :: nat)"
proof -
  let ?two = "[q_cat, q_dog]"
  have wait: "run (pausedReveal ?two 1000) [(env0, Elapse 2000)] = Inr (pausedReveal ?two 3000)"
    by (simp add: andThen_def step_wait_two)
  have later: "run (resumedReveal ?two 3000) [(env0, Elapse 500)] = Inr (resumedReveal ?two 3500)"
    by (simp add: andThen_def step_later_two)
  have running: "\<not> isPaused (state (revealing ?two 1000))" "dataset (revealing ?two 1000) \<noteq> None"
    by (simp_all add: revealing_def uploaded_def initialState_def)
  have paused: "isPaused (state (pausedReveal ?two 3000))" "dataset (pausedReveal ?two 3000) \<noteq> None"
    by (simp_all add: pausedReveal_def revealing_def uploaded_def)
  have rev: "currentAnswer (state (pausedReveal ?two 3000)) \<noteq> None"
    "showingAnswer (state (pausedReveal ?two 3000))"
    "\<not> quizCompleted (state (pausedReveal ?two 3000))"
    by (simp_all add: pausedReveal_def revealing_def uploaded_def initialState_def)
  have mem: "(3, 8000) \<in> set (timeouts (resumedReveal ?two 3500))"
    by (simp add: resumedReveal_def)
  have t0: "timeouts (revealing ?two 1000) = [(2, 5000)]" by (simp add: revealing_def)
  have c2: "clock (pausedReveal ?two 3000) = 3000"
    by (simp add: pausedReveal_def revealing_def)
  note main = reveal_timer_pause_resume [OF run_revealing_two running step_pause_two wait paused rev
      step_resume_two later]
  from main mem have "clock (pausedReveal ?two 3000) + 5000 \<le> snd (3 :: nat, 8000 :: nat)"
    by blast
  with main run_revealing_two step_pause_two wait step_resume_two later mem t0 c2
  show ?thesis by simp
qed

text \<open>
  C3. Advancing on the last question sets \<open>quizCompleted\<close>, and an advance on a
  completed session should change nothing. The first half holds; the second fails on a
  run the user can produce. One question is loaded and answered; during the reveal the
  user pauses and resumes, which leaves two timeouts pending, both due 5000 after the
  resume. The first one completes the quiz. The second one is not cancelled, because the
  effect that set it is cleaned up only when the pause flag changes; it dispatches
  \<open>NEXT_QUESTION\<close> on the completed session, which moves the index to 2 and clears
  \<open>quizCompleted\<close>, and the next render fails on the question that is not there.
\<close>

theorem stale_timeout_advances_completed_quiz:
  "run mounted [(env0, Upload [q_cat]), (env0, ClickOption ''cat''), (env0, Elapse 1000),
                (env0, ClickPause), (env0, Elapse 2000), (env0, ClickPause), (env0, Fire 3)] =
     Inr completedOne \<and>
   quizCompleted (state completedOne) \<and>
   currentQuestionIndex (state completedOne) = 1 \<and>
   timeouts completedOne = [(4, 8000)] \<and>
   handle completedOne (Fire 4) = Inr overrunOne \<and>
   handleNextQuestion (state completedOne) = Inr (state overrunOne) \<and>
   \<not> quizCompleted (state overrunOne) \<and>
   currentQuestionIndex (state overrunOne) = 2 \<and>
   length (questions (state overrunOne)) = 1 \<and>
   renderView env0 overrunOne = Inl TypeError \<and>
   step completedOne (env0, Fire 4) = Inl TypeError"
proof -
  have "run mounted [(env0, Upload [q_cat]), (env0, ClickOption ''cat''), (env0, Elapse 1000),
                (env0, ClickPause), (env0, Elapse 2000), (env0, ClickPause), (env0, Fire 3)] =
     Inr completedOne"
    by (simp add: andThen_def step_upload_one step_answer_one step_elapse_one step_pause_one
        step_wait_one step_resume_one step_fire3_one)
  moreover have "handleNextQuestion (state completedOne) = Inr (state overrunOne)"
    by (simp add: handleNextQuestion_def completedOne_def overrunOne_def initialState_def)
  moreover have "quizCompleted (state completedOne)" "currentQuestionIndex (state completedOne) = 1"
    "timeouts completedOne = [(4, 8000)]" "\<not> quizCompleted (state overrunOne)"
    "currentQuestionIndex (state overrunOne) = 2" "length (questions (state overrunOne)) = 1"
    by (simp_all add: completedOne_def overrunOne_def initialState_def)
  ultimately show ?thesis
    using handle_fire4_one render_overrunOne step_fire4_one by simp
qed

subsection \<open>How long the countdown runs\<close>

lemma countdownTicks_append:
  "countdownTicks (m + n) st = andThen (countdownTicks m st) (countdownTicks n)"
  by (induction m arbitrary: st) (auto simp: andThen_def split: sum.splits)

lemma countdownTicks_whole:
  assumes "currentQuestion s = Some q" and "\<not> isPaused s" and "currentAnswer s = None"
    and "tickDecrement (speedLevel s) = of_int D" and "0 \<le> D" and "D \<le> 100"
    and "T < 2 ^ 53" and "100 < T - int (k - 1) * D"
  shows "countdownTicks k (s, of_int T) = Inr (s, of_int (T - int k * D))"
  using assms(7,8)
proof (induction k arbitrary: T)
  case 0
  then show ?case by simp
next
  case (Suc k)
  have "0 \<le> int k * D" using assms(5) by simp
  with Suc.prems have t: "100 < T" by simp
  with assms(5,6) Suc.prems(1) have "0 < T - D" "T - D < 2 ^ 53" by simp_all
  then have "fl (of_int (T - D)) = of_int (T - D)" by (rule fl_of_int)
  then have tick: "countdownTick (s, of_int T) = Inr (s, of_int (T - D))"
    using assms(1-4) t by (simp add: countdownTick_def intervalCallback_def)
  show ?case
  proof (cases k)
    case 0
    with tick show ?thesis by simp
  next
    case (Suc j)
    with Suc.prems have "100 < (T - D) - int (k - 1) * D"
      by (simp add: algebra_simps)
    from Suc.IH [OF \<open>T - D < 2 ^ 53\<close> this] tick show ?thesis
      by (simp add: algebra_simps)
  qed
qed

lemma state_secondQuestion:
  "currentQuestion (state secondQuestion) = Some q_dog"
  "\<not> isPaused (state secondQuestion)" "currentAnswer (state secondQuestion) = None"
  "speedLevel (state secondQuestion) = 2"
  by (simp_all add: secondQuestion_def currentQuestion_def initialState_def)

text \<open>
  C6 as stated fails. At speed level 2 the countdown of a new question starts at
  5000, not at 2 \<times> 5000, and it ends on the 99th tick, 9900 units after it started,
  not after 10000: after 98 ticks 100 units are left, and the tick that finds 100 units
  left is the timeout.
\<close>

theorem countdown_at_level_two:
  "run mounted [(env0, Upload [q_cat, q_dog]), (env0, ClickSpeed), (env0, Fire 2),
                (env0, ClickOption ''cat''), (env0, ClickNext)] = Inr secondQuestion \<and>
   speedLevel (state secondQuestion) = 2 \<and>
   currentAnswer (state secondQuestion) = None \<and>
   remainingTime secondQuestion = 5000 \<and>
   remainingTime secondQuestion \<noteq> 2 * 5000 \<and>
   countdownTicks 98 (state secondQuestion, remainingTime secondQuestion) =
     Inr (state secondQuestion, 100) \<and>
   countdownTicks 99 (state secondQuestion, remainingTime secondQuestion) =
     Inr ((state secondQuestion)\<lparr>currentAnswer := Some ''dog'', showingAnswer := True,
                                   isCorrect := Some True\<rparr>, 0) \<and>
   (99 :: nat) * 100 \<noteq> 2 * 5000"
proof -
  have r: "run mounted [(env0, Upload [q_cat, q_dog]), (env0, ClickSpeed), (env0, Fire 2),
                (env0, ClickOption ''cat''), (env0, ClickNext)] = Inr secondQuestion"
    by (simp add: andThen_def step_upload_two step_speed step_tick step_answer_slow step_next_slow)
  have rt: "remainingTime secondQuestion = 5000" by (simp add: secondQuestion_def)
  note s = state_secondQuestion
  have 98: "countdownTicks 98 (state secondQuestion, 5000) = Inr (state secondQuestion, 100)"
    using countdownTicks_whole [OF s(1-3), where D = 50 and k = 98 and T = 5000]
    by (simp add: s(4) tickDecrement_values)
  have last: "countdownTick (state secondQuestion, 100) =
     Inr ((state secondQuestion)\<lparr>currentAnswer := Some ''dog'', showingAnswer := True,
                                   isCorrect := Some True\<rparr>, 0)"
    by (simp add: countdownTick_def intervalCallback_def handleAnswer_eq s)
  have 99: "countdownTicks 99 (state secondQuestion, 5000) =
     Inr ((state secondQuestion)\<lparr>currentAnswer := Some ''dog'', showingAnswer := True,
                                   isCorrect := Some True\<rparr>, 0)"
    using 98 last countdownTicks_append [of 98 1 "(state secondQuestion, 5000)"]
    by (simp add: andThen_def)
  from r rt s(3,4) 98 99 show ?thesis by simp
qed

lemma handle_next_slow: "handle answeredSlow ClickNext = Inr beforeEffects"
  by code_simp

lemma shuffle_beforeEffects:
  "questionChanged beforeEffects"
  "shuffleAction (pick env0) (state beforeEffects) = Some (SET_FIXED_OPTIONS [''dog'', ''cat''])"
  "shuffleOptionsEffect env0 beforeEffects (runCleanups beforeEffects) =
     Inr (beforeEffects\<lparr>state := (state beforeEffects)\<lparr>fixedOptions := [''dog'', ''cat'']\<rparr>,
                         timeouts := [], remainingTime := 5000\<rparr>)"
  by code_simp+

lemma fire_spedUp:
  "fireInterval \<lparr> intervalId = 2, nextFire = 100, closedQuestion = q_cat,
                   closedSpeed = 2, closedTimer = Some 1 \<rparr> spedUp = Inr tickedOnce"
  by code_simp

text \<open>
  An instance of C6: the speed button is clicked right after the upload, and the next
  tick takes 50 units off the 5000.
\<close>

theorem speed_change_rescales_decrement_witness:
  "run mounted [(env0, Upload [q_cat, q_dog])] = Inr (uploaded [q_cat, q_dog]) \<and>
   dataset (uploaded [q_cat, q_dog]) \<noteq> None \<and>
   speedLevel (state (uploaded [q_cat, q_dog])) = 1 \<and>
   step (uploaded [q_cat, q_dog]) (env0, ClickSpeed) = Inr spedUp \<and>
   questionChanged beforeEffects \<and>
   shuffleAction (pick env0) (state beforeEffects) \<noteq> None \<and>
   remainingTime (runCleanups beforeEffects) = 4950 \<and>
   shuffleOptionsEffect env0 beforeEffects (runCleanups beforeEffects) =
     Inr (beforeEffects\<lparr>state := (state beforeEffects)\<lparr>fixedOptions := [''dog'', ''cat'']\<rparr>,
                         timeouts := [], remainingTime := 5000\<rparr>) \<and>
   remainingTime spedUp = remainingTime (uploaded [q_cat, q_dog]) \<and>
   speedLevel (state spedUp) = 2 \<and>
   clock spedUp = 0 \<and>
   intervals spedUp = [\<lparr> intervalId = 2, nextFire = 100, closedQuestion = q_cat,
                           closedSpeed = 2, closedTimer = Some 1 \<rparr>] \<and>
   100 < remainingTime spedUp \<and>
   fireInterval \<lparr> intervalId = 2, nextFire = 100, closedQuestion = q_cat,
                   closedSpeed = 2, closedTimer = Some 1 \<rparr> spedUp = Inr tickedOnce \<and>
   remainingTime tickedOnce = fl (remainingTime spedUp - tickDecrement 2) \<and>
   remainingTime tickedOnce = 4950 \<and>
   state tickedOnce = state spedUp \<and>
   clock tickedOnce = clock spedUp + 100 \<and>
   \<lparr> intervalId = 2, nextFire = 200, closedQuestion = q_cat,
     closedSpeed = 2, closedTimer = Some 1 \<rparr> \<in> set (intervals tickedOnce)"
proof -
  let ?iv = "\<lparr> intervalId = 2, nextFire = 100, closedQuestion = q_cat,
               closedSpeed = 2, closedTimer = Some 1 \<rparr>"
  have reach: "run mounted [(env0, Upload [q_cat, q_dog])] = Inr (uploaded [q_cat, q_dog])"
    by (simp add: andThen_def step_upload_two)
  have loaded: "dataset (uploaded [q_cat, q_dog]) \<noteq> None" by (simp add: uploaded_def)
  have one: "speedLevel (state (uploaded [q_cat, q_dog])) = 1"
    by (simp add: uploaded_def initialState_def)
  then have level: "speedLevel (state (uploaded [q_cat, q_dog])) \<in> {1, 2, 3}" by simp
  have iv: "intervals spedUp = [?iv]" "100 < remainingTime spedUp"
    "speedLevel (state spedUp) = 2" "clock spedUp = 0"
    by (simp_all add: spedUp_def uploaded_def mounted_def)
  have rc: "remainingTime (runCleanups beforeEffects) = 4950"
    by (simp add: runCleanups_def Let_def clearInterval_def clearTimeout_def beforeEffects_def
        answeredSlow_def tickedOnce_def split: option.splits)
  have v: "remainingTime tickedOnce = 4950" by (simp add: tickedOnce_def)
  note main = speed_change_rescales_decrement [OF reach loaded level step_speed,
      where r = beforeEffects and env' = env0 and w = "runCleanups beforeEffects"
        and w' = "beforeEffects\<lparr>state := (state beforeEffects)\<lparr>fixedOptions := [''dog'', ''cat'']\<rparr>,
                         timeouts := [], remainingTime := 5000\<rparr>"]
  from main have same: "remainingTime spedUp = remainingTime (uploaded [q_cat, q_dog])"
    by (elim conjE) assumption
  from main have every: "\<forall>iv \<in> set (intervals spedUp).
      closedSpeed iv = speedLevel (state spedUp) \<and>
      nextFire iv = clock spedUp + 100 \<and>
      (\<forall>c''. 100 < remainingTime spedUp \<and> fireInterval iv spedUp = Inr c'' \<longrightarrow>
         remainingTime c'' =
           fl (remainingTime spedUp - tickDecrement (speedLevel (state spedUp))) \<and>
         state c'' = state spedUp \<and>
         clock c'' = clock spedUp + 100 \<and>
         iv\<lparr>nextFire := nextFire iv + 100\<rparr> \<in> set (intervals c''))"
    by (elim conjE) assumption
  have "?iv \<in> set (intervals spedUp)" by (simp only: iv(1) list.set insertI1)
  from bspec [OF every this]
  have "\<forall>c''. 100 < remainingTime spedUp \<and> fireInterval ?iv spedUp = Inr c'' \<longrightarrow>
         remainingTime c'' =
           fl (remainingTime spedUp - tickDecrement (speedLevel (state spedUp))) \<and>
         state c'' = state spedUp \<and>
         clock c'' = clock spedUp + 100 \<and>
         ?iv\<lparr>nextFire := nextFire ?iv + 100\<rparr> \<in> set (intervals c'')"
    by (elim conjE) assumption
  then have "remainingTime tickedOnce =
               fl (remainingTime spedUp - tickDecrement (speedLevel (state spedUp))) \<and>
             state tickedOnce = state spedUp \<and>
             clock tickedOnce = clock spedUp + 100 \<and>
             ?iv\<lparr>nextFire := nextFire ?iv + 100\<rparr> \<in> set (intervals tickedOnce)"
    using iv(2) fire_spedUp by blast
  then have tick: "remainingTime tickedOnce = fl (remainingTime spedUp - tickDecrement 2)"
    "state tickedOnce = state spedUp"
    "clock tickedOnce = clock spedUp + 100"
    "\<lparr> intervalId = 2, nextFire = 200, closedQuestion = q_cat,
       closedSpeed = 2, closedTimer = Some 1 \<rparr> \<in> set (intervals tickedOnce)"
    by (simp_all only: iv(3)) simp_all
  have ne: "shuffleAction (pick env0) (state beforeEffects) \<noteq> None"
    by (simp add: shuffle_beforeEffects(2))
  show ?thesis
    by (intro conjI reach loaded one step_speed shuffle_beforeEffects(1) ne rc
        shuffle_beforeEffects(3) same iv v tick fire_spedUp)
qed

end
